theory Spec2Isabelle
  imports Main "HOL-Library.AList"
begin

section \<open>Strings\<close>

text \<open>
  Go strings are byte sequences; they are modelled as \<open>string\<close> (a list of 8-bit
  characters). \<open>strings.Join\<close> and \<open>strings.HasPrefix\<close> are written out.

  \<open>strings.ToLower\<close> belongs to Go's standard library: it lower-cases every Unicode
  letter, by tables that are not part of this repository. Every definition whose source
  calls it takes it as the parameter \<open>lower\<close>, and what is proved of such a definition is
  proved for every function in that place. On a string of ASCII bytes \<open>strings.ToLower\<close>
  replaces the letters A to Z by a to z and keeps every other byte; \<open>ascii_lower\<close> is that
  function, and it is also what SQLite's \<open>lower()\<close> computes. The scenarios, whose strings
  are ASCII, are run with it.
\<close>

definition ascii_lower_char :: "char \<Rightarrow> char" where
  "ascii_lower_char c =
     (case map_of (zip ''ABCDEFGHIJKLMNOPQRSTUVWXYZ'' ''abcdefghijklmnopqrstuvwxyz'') c of
        None \<Rightarrow> c
      | Some l \<Rightarrow> l)"

definition ascii_lower :: "string \<Rightarrow> string" where
  "ascii_lower s = map ascii_lower_char s"

fun Join :: "string list \<Rightarrow> string \<Rightarrow> string" where
  "Join [] sep = []"
| "Join [x] sep = x"
| "Join (x # y # xs) sep = x @ sep @ Join (y # xs) sep"

fun HasPrefix :: "string \<Rightarrow> string \<Rightarrow> bool" where
  "HasPrefix s [] = True"
| "HasPrefix [] (p # ps) = False"
| "HasPrefix (c # cs) (p # ps) = (c = p \<and> HasPrefix cs ps)"

definition nl :: char where "nl = CHR 0x0A"
definition tab :: char where "tab = CHR 0x09"

section \<open>model.go: field specifications and the create request\<close>

record Index =
  Index_Name :: string
  Index_Indexes :: "string list"

record Field =
  Field_Type :: string
  Field_Name :: string
  Field_Nullable :: bool
  Field_Reference :: string
  Field_Unique :: bool

record CreateTable =
  CreateTable_Name :: string
  CreateTable_Fields :: "Field list"
  CreateTable_Indexes :: "Index list"
  CreateTable_Type :: string

text \<open>
  \<open>func (f *Field) ConvertTypeToSQLiteType() string\<close>: a switch on
  \<open>strings.ToLower(f.Type)\<close>.
\<close>

definition ConvertTypeToSQLiteType :: "(string \<Rightarrow> string) \<Rightarrow> Field \<Rightarrow> string" where
  "ConvertTypeToSQLiteType lower f =
     (let t = lower (Field_Type f) in
      if t = ''text'' \<or> t = ''string'' then ''TEXT''
      else if t = ''number'' \<or> t = ''real'' then ''REAL''
      else if t = ''boolean'' then ''BOOLEAN''
      else if t = ''datetime'' \<or> t = ''timestamp'' then ''DATETIME''
      else if t = ''file'' \<or> t = ''blob'' then ''BLOB''
      else if t = ''relation'' then ''RELATION''
      else [])"

section \<open>TableServiceImpl.Create: the generated column list\<close>

definition authFields :: "string list" where
  "authFields = [''email TEXT NOT NULL'', ''password TEXT NOT NULL'', ''salt TEXT NOT NULL'']"

definition timestampFields :: "string list" where
  "timestampFields =
     [''created_at TIMESTAMP DEFAULT CURRENT_TIMESTAMP'',
      ''updated_at TIMESTAMP DEFAULT CURRENT_TIMESTAMP'']"

text \<open>
  The loop \<open>for i := 0; i < len(params.Fields); i++\<close> with its three accumulators
  \<open>fields\<close>, \<open>foreignKeys\<close>, \<open>uniques\<close>. A field whose type converts to the empty string
  is skipped by \<open>continue\<close>.
\<close>

fun Create_loop ::
  "(string \<Rightarrow> string) \<Rightarrow> Field list \<Rightarrow> string list \<times> string list \<times> string list
     \<Rightarrow> string list \<times> string list \<times> string list" where
  "Create_loop lower [] acc = acc"
| "Create_loop lower (f # fs) (cols, foreignKeys, uniques) =
     (let dtype = ConvertTypeToSQLiteType lower f in
      if dtype = [] then Create_loop lower fs (cols, foreignKeys, uniques)
      else
        let field = (if dtype = ''RELATION'' then Field_Name f @ '' '' @ ''TEXT''
                     else Field_Name f @ '' '' @ dtype);
            foreignKeys' =
              (if dtype = ''RELATION''
               then foreignKeys @
                 [''FOREIGN KEY('' @ Field_Name f @ '') REFERENCES '' @ Field_Reference f
                    @ ''(id) ON UPDATE CASCADE'']
               else foreignKeys);
            field' = (if \<not> Field_Nullable f then field @ '' NOT NULL'' else field);
            uniques' = (if Field_Unique f
                        then uniques @ [''UNIQUE ('' @ Field_Name f @ '')'']
                        else uniques)
        in Create_loop lower fs (cols @ [field'], foreignKeys', uniques'))"

definition Create_columns ::
  "(string \<Rightarrow> string) \<Rightarrow> CreateTable \<Rightarrow> string list \<times> string list \<times> string list" where
  "Create_columns lower params =
     Create_loop lower (CreateTable_Fields params)
       ([''id INTEGER PRIMARY KEY'']
          @ (if CreateTable_Type params = ''users'' then authFields else []),
        [], [])"

definition Create_fields :: "(string \<Rightarrow> string) \<Rightarrow> CreateTable \<Rightarrow> string list" where
  "Create_fields lower params =
     (case Create_columns lower params of
        (cols, foreignKeys, uniques) \<Rightarrow>
          ((cols @ timestampFields) @ uniques) @ foreignKeys)"

definition Create_query :: "(string \<Rightarrow> string) \<Rightarrow> CreateTable \<Rightarrow> string" where
  "Create_query lower params =
     [nl, tab, tab] @ ''CREATE TABLE '' @ CreateTable_Name params @ '' ('' @ [nl, tab, tab, tab]
       @ Join (Create_fields lower params) '','' @ [nl, tab, tab] @ '')'' @ [nl, tab]"

subsection \<open>The parts of the statement, named\<close>

definition supported :: "(string \<Rightarrow> string) \<Rightarrow> Field \<Rightarrow> bool" where
  "supported lower f = (ConvertTypeToSQLiteType lower f \<noteq> [])"

definition is_relation :: "(string \<Rightarrow> string) \<Rightarrow> Field \<Rightarrow> bool" where
  "is_relation lower f = (ConvertTypeToSQLiteType lower f = ''RELATION'')"

definition column_def :: "(string \<Rightarrow> string) \<Rightarrow> Field \<Rightarrow> string" where
  "column_def lower f =
     Field_Name f @ '' ''
       @ (if is_relation lower f then ''TEXT'' else ConvertTypeToSQLiteType lower f)
       @ (if Field_Nullable f then [] else '' NOT NULL'')"

definition unique_clause :: "Field \<Rightarrow> string" where
  "unique_clause f = ''UNIQUE ('' @ Field_Name f @ '')''"

definition foreign_key_clause :: "Field \<Rightarrow> string" where
  "foreign_key_clause f =
     ''FOREIGN KEY('' @ Field_Name f @ '') REFERENCES '' @ Field_Reference f
       @ ''(id) ON UPDATE CASCADE''"

text \<open>The name of a column is the text of its definition up to the first blank.\<close>

definition col_name :: "string \<Rightarrow> string" where
  "col_name d = takeWhile (\<lambda>c. c \<noteq> CHR '' '') d"

text \<open>
  The column definitions of the created table: the accumulated \<open>fields\<close> before the
  table-level constraints are appended, followed by the two timestamp columns.
\<close>

definition Create_table_columns :: "(string \<Rightarrow> string) \<Rightarrow> CreateTable \<Rightarrow> string list" where
  "Create_table_columns lower params =
     (case Create_columns lower params of (cols, foreignKeys, uniques) \<Rightarrow> cols @ timestampFields)"

text \<open>
  A plain identifier: at least one character, each a letter, a digit or the underscore. A
  column definition that starts with such a name declares one column of that name.
\<close>

definition plain_name :: "string \<Rightarrow> bool" where
  "plain_name s =
     (s \<noteq> []
      \<and> list_all
          (\<lambda>c. c \<in> set ''abcdefghijklmnopqrstuvwxyzABCDEFGHIJKLMNOPQRSTUVWXYZ0123456789_'') s)"

definition reserved_auth_columns :: "string list" where
  "reserved_auth_columns =
     [''id'', ''email'', ''password'', ''salt'', ''created_at'', ''updated_at'']"

section \<open>api/database.go: the older CreateTable handler, statement generation\<close>

record fields_t =
  fields_FieldType :: string
  fields_FieldName :: string
  fields_Nullable :: bool
  fields_RelatedTable :: string
  fields_Indexed :: bool
  fields_Unique :: bool

record createTableReq =
  req_TableName :: string
  req_IDType :: string
  req_Fields :: "fields_t list"
  req_Type :: string

definition convertTypeToSQLiteType :: "fields_t \<Rightarrow> string" where
  "convertTypeToSQLiteType f =
     (let t = fields_FieldType f in
      if t = ''text'' then ''TEXT''
      else if t = ''number'' then ''REAL''
      else if t = ''boolean'' then ''BOOLEAN''
      else if t = ''datetime'' then ''DATETIME''
      else if t = ''file'' then ''BLOB''
      else if t = ''relation'' then ''RELATION''
      else [])"

text \<open>The \<open>switch params.IDType\<close>: \<open>None\<close> is the early return "Invalid id type".\<close>

definition CreateTable_id :: "createTableReq \<Rightarrow> string option" where
  "CreateTable_id params =
     (if req_IDType params = ''string''
      then Some (''id '' @ ''TEXT PRIMARY KEY DEFAULT (hex(randomblob(8)))'')
      else if req_IDType params = ''manual'' then Some (''id '' @ ''TEXT PRIMARY KEY'')
      else None)"

text \<open>The loop over \<open>params.Fields\<close>; the fourth accumulator collects the index statements.\<close>

fun CreateTable_loop ::
  "string \<Rightarrow> fields_t list \<Rightarrow> string list \<times> string list \<times> string list \<times> string list
     \<Rightarrow> string list \<times> string list \<times> string list \<times> string list" where
  "CreateTable_loop tn [] acc = acc"
| "CreateTable_loop tn (f # fs) (cols, foreignKeys, uniques, indexes) =
     (let dtype = convertTypeToSQLiteType f in
      if dtype = [] then CreateTable_loop tn fs (cols, foreignKeys, uniques, indexes)
      else
        let field = (if dtype = ''RELATION'' then fields_FieldName f @ '' '' @ ''TEXT''
                     else fields_FieldName f @ '' '' @ dtype);
            foreignKeys' =
              (if dtype = ''RELATION''
               then foreignKeys @
                 [''FOREIGN KEY('' @ fields_FieldName f @ '') REFERENCES ''
                    @ fields_RelatedTable f @ ''(id) ON UPDATE CASCADE'']
               else foreignKeys);
            field' = (if \<not> fields_Nullable f then field @ '' NOT NULL'' else field);
            indexes' =
              (if fields_Indexed f
               then indexes @
                 [''CREATE INDEX idx_'' @ fields_FieldName f @ '' ON '' @ tn @ '' (''
                    @ fields_FieldName f @ '')'']
               else indexes);
            uniques' = (if fields_Unique f
                        then uniques @ [''UNIQUE ('' @ fields_FieldName f @ '')'']
                        else uniques)
        in CreateTable_loop tn fs (cols @ [field'], foreignKeys', uniques', indexes'))"

definition CreateTable_columns ::
  "createTableReq \<Rightarrow> string \<Rightarrow> string list \<times> string list \<times> string list \<times> string list" where
  "CreateTable_columns params idc =
     CreateTable_loop (req_TableName params) (req_Fields params)
       ([idc] @ (if req_Type params = ''users'' then authFields else []), [], [], [])"

definition CreateTable_table_columns :: "createTableReq \<Rightarrow> string list option" where
  "CreateTable_table_columns params =
     (case CreateTable_id params of
        None \<Rightarrow> None
      | Some idc \<Rightarrow>
          (case CreateTable_columns params idc of
             (cols, foreignKeys, uniques, indexes) \<Rightarrow> Some (cols @ timestampFields)))"

definition supported_t :: "fields_t \<Rightarrow> bool" where
  "supported_t f = (convertTypeToSQLiteType f \<noteq> [])"

definition column_def_t :: "fields_t \<Rightarrow> string" where
  "column_def_t f =
     fields_FieldName f @ '' ''
       @ (if convertTypeToSQLiteType f = ''RELATION'' then ''TEXT''
          else convertTypeToSQLiteType f)
       @ (if fields_Nullable f then [] else '' NOT NULL'')"

section \<open>Untyped values and Go maps\<close>

text \<open>
  A value of type \<open>interface{}\<close> as \<open>encoding/json\<close> produces it: nil, a bool, a number, a
  string, a \<open>[]interface{}\<close> or a \<open>map[string]interface{}\<close>. Numbers are opaque here (no
  arithmetic is done on them) and are held as integers. A Go map is an association list
  read with \<open>map_of\<close> and written with \<open>AList.update\<close>; reading an absent key gives nil.
\<close>

datatype val =
    VNil
  | VBool bool
  | VNum int
  | VStr string
  | VArr "val list"
  | VObj "(string \<times> val) list"

type_synonym gomap = "(string \<times> val) list"

definition lookup :: "gomap \<Rightarrow> string \<Rightarrow> val" where
  "lookup m k = (case map_of m k of None \<Rightarrow> VNil | Some v \<Rightarrow> v)"

text \<open>
  The outcome of a handler: a value, an error carrying its message, or a panic (a failed
  type assertion).
\<close>

datatype 'a result = Ok 'a | Err string | Panic

section \<open>The storage connection and gorm's Transaction\<close>

text \<open>
  A connection holds the committed state and, while a transaction is open, the statements
  executed on the transaction handle. A statement executed on the pool handle (\<open>d.db\<close>,
  \<open>f.db\<close>) is applied to the committed state at once. A statement executed on the
  transaction handle (the \<open>tx\<close> argument of the callback) is checked against the
  transaction's view and stays pending. \<open>Transaction\<close> runs the callback with the
  transaction handle; it commits the pending statements when the callback returns no
  error, and discards them when it returns an error or panics.
\<close>

datatype handle = Pool | Tx

record 's conn =
  committed :: 's
  pending :: "('s \<Rightarrow> string + 's) list"

definition replay :: "('s \<Rightarrow> string + 's) list \<Rightarrow> 's \<Rightarrow> 's" where
  "replay ops s = fold (\<lambda>opn st. case opn st of Inl e \<Rightarrow> st | Inr st' \<Rightarrow> st') ops s"

definition view :: "handle \<Rightarrow> 's conn \<Rightarrow> 's" where
  "view h c = (case h of Pool \<Rightarrow> committed c | Tx \<Rightarrow> replay (pending c) (committed c))"

definition exec :: "handle \<Rightarrow> ('s \<Rightarrow> string + 's) \<Rightarrow> 's conn \<Rightarrow> string option \<times> 's conn" where
  "exec h opn c =
     (case opn (view h c) of
        Inl e \<Rightarrow> (Some e, c)
      | Inr s' \<Rightarrow>
          (case h of
             Pool \<Rightarrow> (None, c\<lparr>committed := s'\<rparr>)
           | Tx \<Rightarrow> (None, c\<lparr>pending := pending c @ [opn]\<rparr>)))"

definition Transaction ::
  "(handle \<Rightarrow> 's conn \<Rightarrow> 'a result \<times> 's conn) \<Rightarrow> 's conn \<Rightarrow> 'a result \<times> 's conn" where
  "Transaction fc c =
     (case fc Tx (c\<lparr>pending := []\<rparr>) of
        (Ok x, c') \<Rightarrow> (Ok x, c'\<lparr>committed := view Tx c', pending := []\<rparr>)
      | (Err e, c') \<Rightarrow> (Err e, c'\<lparr>pending := []\<rparr>)
      | (Panic, c') \<Rightarrow> (Panic, c'\<lparr>pending := []\<rparr>))"

section \<open>The function interpreter (RunFunction)\<close>

text \<open>
  Modelled from the spec: the declaration of the \<open>Filter\<close> type is not in the sources; the
  interpreter reads its fields \<open>Column\<close>, \<open>Operator\<close> and \<open>Value\<close> and compares \<open>Value\<close>
  with the empty string, and the spec describes it as a triple of column, operator and
  value whose absent value falls back to the caller's value.
\<close>

record Filter =
  Filter_Column :: string
  Filter_Operator :: string
  Filter_Value :: string

record Function =
  Function_Name :: string
  Function_Action :: string
  Function_Table :: string
  Function_Multiple :: bool
  Function_Values :: gomap
  Function_Filter :: "Filter list"
  Function_Columns :: "string list"

text \<open>
  The row operations of gorm that the interpreter calls, on a storage state of any type:
  \<open>Table(t).Create(rows)\<close>, \<open>Table(t).Where(...).Updates(values)\<close>,
  \<open>Table(t).Where(...).Delete(nil)\<close> and \<open>Table(t).Select(columns).Find(&result)\<close>.
  The conditions are passed as the pairs given to \<open>Where\<close>.
\<close>

record 's engine =
  e_Create :: "string \<Rightarrow> gomap list \<Rightarrow> 's \<Rightarrow> string + 's"
  e_Updates :: "string \<Rightarrow> gomap \<Rightarrow> gomap \<Rightarrow> 's \<Rightarrow> string + 's"
  e_Delete :: "string \<Rightarrow> gomap \<Rightarrow> 's \<Rightarrow> string + 's"
  e_Find :: "string \<Rightarrow> string list \<Rightarrow> 's \<Rightarrow> string + gomap list"

text \<open>
  \<open>BindSingularInput\<close>: the body of the loop over the template computes the value bound to
  the key \<open>k\<close>. \<open>v.(string)\<close> panics on a value that is not a string (\<open>None\<close>);
  \<open>v.(string)[1:]\<close> is the token without its first byte.
\<close>

definition bind_value :: "string \<Rightarrow> val \<Rightarrow> gomap \<Rightarrow> gomap \<Rightarrow> string \<Rightarrow> val option" where
  "bind_value k v input savedData userID =
     (case v of
        VStr s \<Rightarrow>
          if HasPrefix s ''$'' then
            (let key = drop 1 s in
             if v = VStr ''$user.id'' then Some (VStr userID)
             else Some (lookup savedData key))
          else Some (lookup input k)
      | _ \<Rightarrow> None)"

fun BindSingularInput_loop ::
  "gomap \<Rightarrow> gomap \<Rightarrow> gomap \<Rightarrow> string \<Rightarrow> gomap \<Rightarrow> gomap result" where
  "BindSingularInput_loop [] input savedData userID res = Ok res"
| "BindSingularInput_loop ((k, v) # template) input savedData userID res =
     (case bind_value k v input savedData userID of
        None \<Rightarrow> Panic
      | Some x \<Rightarrow>
          BindSingularInput_loop template input savedData userID (AList.update k x res))"

definition BindSingularInput :: "gomap \<Rightarrow> gomap \<Rightarrow> gomap \<Rightarrow> string \<Rightarrow> gomap result" where
  "BindSingularInput template input savedData userID =
     BindSingularInput_loop template input savedData userID []"

text \<open>\<open>BindMultipleInput\<close>: \<open>input.(map[string]interface{})\<close> panics on any other value.\<close>

fun BindMultipleInput_loop ::
  "gomap \<Rightarrow> val list \<Rightarrow> gomap \<Rightarrow> string \<Rightarrow> gomap list \<Rightarrow> gomap list result" where
  "BindMultipleInput_loop template [] savedData userID res = Ok res"
| "BindMultipleInput_loop template (input # inputs) savedData userID res =
     (case input of
        VObj m \<Rightarrow>
          (case BindSingularInput template m savedData userID of
             Ok r \<Rightarrow> BindMultipleInput_loop template inputs savedData userID (res @ [r])
           | Err e \<Rightarrow> Err e
           | Panic \<Rightarrow> Panic)
      | _ \<Rightarrow> Panic)"

definition BindMultipleInput ::
  "gomap \<Rightarrow> val list \<Rightarrow> gomap \<Rightarrow> string \<Rightarrow> gomap list result" where
  "BindMultipleInput template inputs savedData userID =
     BindMultipleInput_loop template inputs savedData userID []"

text \<open>
  Modelled from the spec: \<open>utils.GenerateRandomString\<close> is not in the sources (the spec
  names it a collision-resistant random identifier generator). It is the parameter
  \<open>gen\<close>: \<open>gen n i\<close> is the string returned by the \<open>i\<close>-th call of an invocation, made with
  length argument \<open>n\<close>. Its error result is discarded by the interpreter.

  \<open>for i := range bindedInput { bindedInput[i]["id"], _ = utils.GenerateRandomString(16) }\<close>:
\<close>

fun assign_ids :: "(nat \<Rightarrow> nat \<Rightarrow> string) \<Rightarrow> nat \<Rightarrow> gomap list \<Rightarrow> gomap list" where
  "assign_ids gen n [] = []"
| "assign_ids gen n (r # rs) =
     AList.update ''id'' (VStr (gen 16 n)) r # assign_ids gen (Suc n) rs"

text \<open>
  Modelled from the spec: what \<open>utils.GenerateRandomString\<close> returns. The spec asks for a
  collision-resistant random identifier generator that gives every inserted row a fresh,
  non-empty identifier of its own; the interpreter asks it for 16 characters. The contract
  for the first \<open>m\<close> calls of an invocation: each returns 16 characters, and no two return
  the same string.
\<close>

definition GenerateRandomString_ok :: "(nat \<Rightarrow> nat \<Rightarrow> string) \<Rightarrow> nat \<Rightarrow> bool" where
  "GenerateRandomString_ok gen m =
     (list_all (\<lambda>i. length (gen 16 i) = 16) [0..<m] \<and> distinct (map (gen 16) [0..<m]))"

text \<open>The filter map of a delete step, built from the step's \<open>Filter\<close> list.\<close>

fun delete_filter :: "Filter list \<Rightarrow> gomap \<Rightarrow> gomap \<Rightarrow> gomap" where
  "delete_filter [] data flt = flt"
| "delete_filter (f # fs) data flt =
     (if Filter_Value f = []
      then delete_filter fs data
             (AList.update (Filter_Column f @ Filter_Operator f)
                (lookup data (Filter_Column f)) flt)
      else delete_filter fs data
             (AList.update (Filter_Column f @ Filter_Operator f) (VStr (Filter_Value f)) flt))"

text \<open>
  One iteration of \<open>for _, f := range functions\<close>. The state of the loop is \<open>savedData\<close>
  and the number of identifiers drawn so far. \<open>caller.Data\<close> holds JSON-decoded values, so
  the assertion \<open>.([]map[string]interface{})\<close> of the multiple update fails on every one of
  them (a JSON array decodes to \<open>[]interface{}\<close>, an absent key reads as nil).
\<close>

definition lift_exec :: "string option \<times> 's conn \<Rightarrow> 'a \<Rightarrow> 'a result \<times> 's conn" where
  "lift_exec r x = (case r of (None, c') \<Rightarrow> (Ok x, c') | (Some e, c') \<Rightarrow> (Err e, c'))"

definition RunFunction_step ::
  "'s engine \<Rightarrow> (nat \<Rightarrow> nat \<Rightarrow> string) \<Rightarrow> handle \<Rightarrow> Function \<Rightarrow> gomap \<Rightarrow> string
     \<Rightarrow> gomap \<times> nat \<Rightarrow> 's conn \<Rightarrow> (gomap \<times> nat) result \<times> 's conn" where
  "RunFunction_step E gen db f data userID st c =
     (case st of (savedData, n) \<Rightarrow>
      if Function_Action f = ''insert'' then
        (if Function_Multiple f then
           (case lookup data (Function_Name f) of
              VArr inputs \<Rightarrow>
                (case BindMultipleInput (Function_Values f) inputs savedData userID of
                   Ok bindedInput \<Rightarrow>
                     lift_exec
                       (exec db (e_Create E (Function_Table f) (assign_ids gen n bindedInput)) c)
                       (savedData, n + length bindedInput)
                 | Err e \<Rightarrow> (Err e, c)
                 | Panic \<Rightarrow> (Panic, c))
            | _ \<Rightarrow> (Panic, c))
         else
           (case lookup data (Function_Name f) of
              VObj input \<Rightarrow>
                (case BindSingularInput (Function_Values f) input savedData userID of
                   Ok bindedInput \<Rightarrow>
                     (let bindedInput' = AList.update ''id'' (VStr (gen 16 n)) bindedInput in
                      lift_exec
                        (exec db (e_Create E (Function_Table f) [bindedInput']) c)
                        (AList.update (Function_Name f) (lookup bindedInput' ''id'') savedData,
                         Suc n))
                 | Err e \<Rightarrow> (Err e, c)
                 | Panic \<Rightarrow> (Panic, c))
            | _ \<Rightarrow> (Panic, c)))
      else if Function_Action f = ''update'' then
        (if Function_Multiple f then (Panic, c)
         else
           (case lookup data (Function_Name f) of
              VObj input \<Rightarrow>
                (let flt = [(''id = ?'', lookup input ''id'')] in
                 case BindSingularInput (Function_Values f) input savedData userID of
                   Ok bindedInput \<Rightarrow>
                     lift_exec (exec db (e_Updates E (Function_Table f) flt bindedInput) c)
                       (savedData, n)
                 | Err e \<Rightarrow> (Err e, c)
                 | Panic \<Rightarrow> (Panic, c))
            | _ \<Rightarrow> (Panic, c)))
      else if Function_Action f = ''delete'' then
        (case lookup data (Function_Name f) of
           VObj input \<Rightarrow>
             lift_exec
               (exec db (e_Delete E (Function_Table f)
                           (delete_filter (Function_Filter f) input [])) c)
               (savedData, n)
         | _ \<Rightarrow> (Panic, c))
      else if Function_Action f = ''fetch'' then
        (case e_Find E (Function_Table f) (Function_Columns f) (view db c) of
           Inl e \<Rightarrow> (Err e, c)
         | Inr rows \<Rightarrow> (Ok (AList.update (Function_Name f) (VArr (map VObj rows)) savedData, n), c))
      else (Ok (savedData, n), c))"

fun RunFunction_loop ::
  "'s engine \<Rightarrow> (nat \<Rightarrow> nat \<Rightarrow> string) \<Rightarrow> handle \<Rightarrow> Function list \<Rightarrow> gomap \<Rightarrow> string
     \<Rightarrow> gomap \<times> nat \<Rightarrow> 's conn \<Rightarrow> gomap result \<times> 's conn" where
  "RunFunction_loop E gen db [] data userID st c = (Ok (fst st), c)"
| "RunFunction_loop E gen db (f # fs) data userID st c =
     (case RunFunction_step E gen db f data userID st c of
        (Ok st', c') \<Rightarrow> RunFunction_loop E gen db fs data userID st' c'
      | (Err e, c') \<Rightarrow> (Err e, c')
      | (Panic, c') \<Rightarrow> (Panic, c'))"

text \<open>
  The part of \<open>RunFunction\<close> from \<open>savedData := map[string]interface{}{}\<close> on: the steps run
  in \<open>f.db.Transaction\<close> on the handle the callback receives. \<open>Ok savedData\<close> is the response
  with status 200, \<open>Err e\<close> the response with status 500.
\<close>

definition RunFunction ::
  "'s engine \<Rightarrow> (nat \<Rightarrow> nat \<Rightarrow> string) \<Rightarrow> Function list \<Rightarrow> gomap \<Rightarrow> string
     \<Rightarrow> 's conn \<Rightarrow> gomap result \<times> 's conn" where
  "RunFunction E gen functions data userID c =
     Transaction (\<lambda>db c'. RunFunction_loop E gen db functions data userID ([], 0) c') c"


subsection \<open>Shapes of the payload\<close>

definition is_str :: "val \<Rightarrow> bool" where
  "is_str v = (case v of VStr s \<Rightarrow> True | _ \<Rightarrow> False)"

definition is_obj :: "val \<Rightarrow> bool" where
  "is_obj v = (case v of VObj m \<Rightarrow> True | _ \<Rightarrow> False)"

definition is_obj_list :: "val \<Rightarrow> bool" where
  "is_obj_list v = (case v of VArr xs \<Rightarrow> list_all is_obj xs | _ \<Rightarrow> False)"

definition template_ok :: "gomap \<Rightarrow> bool" where
  "template_ok t = list_all (\<lambda>kv. is_str (snd kv)) t"

text \<open>
  The named input of a step has the shape that the step's type assertion asks for: an
  object for a singular insert, a singular update and a delete, a list for a multiple
  insert. No JSON value has the shape the multiple update asserts.
\<close>

definition shape_ok :: "Function \<Rightarrow> gomap \<Rightarrow> bool" where
  "shape_ok f data =
     (if Function_Action f = ''insert'' then
        (if Function_Multiple f
         then (case lookup data (Function_Name f) of VArr xs \<Rightarrow> True | _ \<Rightarrow> False)
         else is_obj (lookup data (Function_Name f)))
      else if Function_Action f = ''update'' then
        (\<not> Function_Multiple f \<and> is_obj (lookup data (Function_Name f)))
      else if Function_Action f = ''delete'' then is_obj (lookup data (Function_Name f))
      else True)"

text \<open>
  A payload that no step can panic on: every shape is right, the elements of a multiple
  insert's list are objects, and every template value of an insert or update step is a
  string.
\<close>

definition step_payload_ok :: "Function \<Rightarrow> gomap \<Rightarrow> bool" where
  "step_payload_ok f data =
     (shape_ok f data
      \<and> (if Function_Action f = ''insert'' \<or> Function_Action f = ''update''
         then template_ok (Function_Values f) else True)
      \<and> (if Function_Action f = ''insert'' \<and> Function_Multiple f
         then is_obj_list (lookup data (Function_Name f)) else True))"

subsection \<open>A small in-memory engine for running scenarios\<close>

text \<open>
  Tables are lists of rows. \<open>Create\<close> appends the rows unless the check \<open>chk\<close> (standing for
  the table's constraints) rejects one of them; \<open>Find\<close> returns the rows, restricted to the
  selected columns when some are given. The scenarios below use no update and no delete,
  which this engine reports as errors.
\<close>

type_synonym mem = "(string \<times> gomap list) list"

definition mem_rows :: "mem \<Rightarrow> string \<Rightarrow> gomap list" where
  "mem_rows s t = (case map_of s t of None \<Rightarrow> [] | Some rs \<Rightarrow> rs)"

definition mem_engine :: "(string \<Rightarrow> gomap \<Rightarrow> mem \<Rightarrow> bool) \<Rightarrow> mem engine" where
  "mem_engine chk =
     \<lparr>e_Create = (\<lambda>t rows s.
        if list_all (\<lambda>r. chk t r s) rows
        then Inr (AList.update t (mem_rows s t @ rows) s)
        else Inl ''constraint failed''),
      e_Updates = (\<lambda>t flt vals s. Inl ''not supported''),
      e_Delete = (\<lambda>t flt s. Inl ''not supported''),
      e_Find = (\<lambda>t cols s.
        Inr (map (\<lambda>r. if cols = [] then r else filter (\<lambda>kv. fst kv \<in> set cols) r)
               (mem_rows s t)))\<rparr>"

text \<open>A uniqueness constraint on the column \<open>col\<close> of the table \<open>tbl\<close>.\<close>

definition unique_on :: "string \<Rightarrow> string \<Rightarrow> string \<Rightarrow> gomap \<Rightarrow> mem \<Rightarrow> bool" where
  "unique_on tbl col t r s =
     (if t = tbl then list_all (\<lambda>r'. lookup r' col \<noteq> lookup r col) (mem_rows s t)
      else True)"


section \<open>The catalog and the live schema\<close>

text \<open>
  \<open>model.Tables\<close>, a row of the catalog table \<open>_table\<close>. The column \<open>indexes\<close> holds JSON
  text that is only ever read by \<open>json.Unmarshal\<close>; it is represented by what
  \<open>json.Unmarshal\<close> makes of it: \<open>Some\<close> of the decoded list, or \<open>None\<close> when the text does not
  decode (the empty text of the rows that \<open>Migrate\<close> writes, and of the zero value).
  \<open>Create\<close> stores the text \<open>json.Marshal\<close> produces for its index list, which decodes to
  that list.
\<close>

record Tables =
  Tables_Name :: string
  Tables_Auth :: bool
  Tables_System :: bool
  Tables_Indexes :: "Index list option"
  Tables_SystemIndex :: "Index list"
  Tables_ViewRule :: string
  Tables_ReadRule :: string
  Tables_InsertRule :: string
  Tables_UpdateRule :: string
  Tables_DeleteRule :: string

definition zero_Tables :: Tables where
  "zero_Tables =
     \<lparr>Tables_Name = [], Tables_Auth = False, Tables_System = False, Tables_Indexes = None,
      Tables_SystemIndex = [], Tables_ViewRule = [], Tables_ReadRule = [],
      Tables_InsertRule = [], Tables_UpdateRule = [], Tables_DeleteRule = []\<rparr>"

text \<open>
  The state of the storage engine as far as these operations see it: the live tables with
  the column and constraint definitions they were created with, the indexes and triggers
  with the table each belongs to, and the rows of the catalog.
\<close>

record sqldb =
  db_tables :: "(string \<times> string list) list"
  db_indexes :: "(string \<times> string) list"
  db_triggers :: "(string \<times> string) list"
  db_catalog :: "Tables list"

definition empty_db :: sqldb where
  "empty_db = \<lparr>db_tables = [], db_indexes = [], db_triggers = [], db_catalog = []\<rparr>"

subsection \<open>Reading the statements the code generates\<close>

text \<open>
  The engine is a small interpreter for the statement forms this code sends: CREATE TABLE,
  CREATE INDEX, CREATE TRIGGER, DROP TABLE, DROP INDEX IF EXISTS and ALTER TABLE RENAME.
  It takes the object names from the statement text and keeps the rules the claims depend
  on: an object is created once, a dropped or renamed table must exist, dropping a table
  drops its indexes and triggers. Names are compared as they are written.
\<close>

definition is_space :: "char \<Rightarrow> bool" where
  "is_space c = (c = CHR '' '' \<or> c = nl \<or> c = tab)"

definition ltrim :: "string \<Rightarrow> string" where
  "ltrim s = dropWhile is_space s"

definition trim :: "string \<Rightarrow> string" where
  "trim s = rev (dropWhile is_space (rev (dropWhile is_space s)))"

definition word :: "string \<Rightarrow> string" where
  "word s = takeWhile (\<lambda>c. \<not> is_space c) s"

definition rest :: "string \<Rightarrow> string" where
  "rest s = ltrim (dropWhile (\<lambda>c. \<not> is_space c) s)"

fun strip_prefix :: "string \<Rightarrow> string \<Rightarrow> string option" where
  "strip_prefix [] s = Some s"
| "strip_prefix (p # ps) [] = None"
| "strip_prefix (p # ps) (c # cs) = (if p = c then strip_prefix ps cs else None)"


fun split_on :: "char \<Rightarrow> string \<Rightarrow> string list" where
  "split_on d [] = [[]]"
| "split_on d (c # cs) =
     (if c = d then [] # split_on d cs
      else (case split_on d cs of [] \<Rightarrow> [[c]] | w # ws \<Rightarrow> (c # w) # ws))"

text \<open>The definitions between the first opening and the last closing parenthesis.\<close>

definition table_body :: "string \<Rightarrow> string list" where
  "table_body s =
     map trim
       (split_on CHR '',''
          (rev (drop 1 (dropWhile (\<lambda>c. c \<noteq> CHR '')'') (rev
             (drop 1 (dropWhile (\<lambda>c. c \<noteq> CHR ''('') s)))))))"

definition has_key :: "('k \<times> 'v) list \<Rightarrow> 'k \<Rightarrow> bool" where
  "has_key m k = (map_of m k \<noteq> None)"

definition run_sql :: "string \<Rightarrow> sqldb \<Rightarrow> string + sqldb" where
  "run_sql q db =
     (let s = ltrim q in
      case strip_prefix ''CREATE TABLE '' s of
        Some r \<Rightarrow>
          (let name = word r in
           if has_key (db_tables db) name then Inl (''table '' @ name @ '' already exists'')
           else Inr (db\<lparr>db_tables := db_tables db @ [(name, table_body r)]\<rparr>))
      | None \<Rightarrow>
      (case strip_prefix ''CREATE INDEX '' s of
        Some r \<Rightarrow>
          (let name = word r;
               tbl = (case strip_prefix ''ON '' (rest r) of Some t \<Rightarrow> word t | None \<Rightarrow> [])
           in
           if has_key (db_indexes db) name then Inl (''index '' @ name @ '' already exists'')
           else if \<not> has_key (db_tables db) tbl then Inl (''no such table: '' @ tbl)
           else Inr (db\<lparr>db_indexes := db_indexes db @ [(name, tbl)]\<rparr>))
      | None \<Rightarrow>
      (case strip_prefix ''CREATE TRIGGER '' s of
        Some r \<Rightarrow>
          (let name = word r;
               tbl = (case strip_prefix ''AFTER UPDATE ON '' (rest r) of
                        Some t \<Rightarrow> word t | None \<Rightarrow> [])
           in
           if has_key (db_triggers db) name then Inl (''trigger '' @ name @ '' already exists'')
           else if \<not> has_key (db_tables db) tbl then Inl (''no such table: '' @ tbl)
           else Inr (db\<lparr>db_triggers := db_triggers db @ [(name, tbl)]\<rparr>))
      | None \<Rightarrow>
      (case strip_prefix ''DROP TABLE '' s of
        Some r \<Rightarrow>
          (let name = word r in
           if \<not> has_key (db_tables db) name then Inl (''no such table: '' @ name)
           else Inr (db\<lparr>db_tables := filter (\<lambda>kv. fst kv \<noteq> name) (db_tables db),
                         db_indexes := filter (\<lambda>kv. snd kv \<noteq> name) (db_indexes db),
                         db_triggers := filter (\<lambda>kv. snd kv \<noteq> name) (db_triggers db)\<rparr>))
      | None \<Rightarrow>
      (case strip_prefix ''DROP INDEX IF EXISTS '' s of
        Some r \<Rightarrow>
          Inr (db\<lparr>db_indexes := filter (\<lambda>kv. fst kv \<noteq> word r) (db_indexes db)\<rparr>)
      | None \<Rightarrow>
      (case strip_prefix ''ALTER TABLE '' s of
        Some r \<Rightarrow>
          (let old = word r;
               new = (case strip_prefix ''RENAME TO '' (rest r) of
                        Some t \<Rightarrow> word t | None \<Rightarrow> [])
           in
           if \<not> has_key (db_tables db) old then Inl (''no such table: '' @ old)
           else if has_key (db_tables db) new
             then Inl (''there is already another table or index with this name: '' @ new)
           else Inr (db\<lparr>db_tables :=
                           map (\<lambda>kv. if fst kv = old then (new, snd kv) else kv) (db_tables db),
                         db_indexes :=
                           map (\<lambda>kv. if snd kv = old then (fst kv, new) else kv) (db_indexes db),
                         db_triggers :=
                           map (\<lambda>kv. if snd kv = old then (fst kv, new) else kv)
                             (db_triggers db)\<rparr>))
      | None \<Rightarrow> Inl ''syntax error''))))))"

subsection \<open>The catalog through gorm\<close>

text \<open>
  \<open>Create(&model.Tables{...})\<close>: the name is the primary key. \<open>Where(...).Delete\<close> removes
  the matching rows and reports no error when there is none. \<open>Where("name = ?",
  old).Update("name", new)\<close> renames the matching row. \<open>Count\<close> on \<open>sqlite_master\<close> counts
  the triggers of a name.
\<close>

definition catalog_insert :: "Tables \<Rightarrow> sqldb \<Rightarrow> string + sqldb" where
  "catalog_insert row db =
     (if list_ex (\<lambda>r. Tables_Name r = Tables_Name row) (db_catalog db)
      then Inl ''UNIQUE constraint failed: _table.name''
      else Inr (db\<lparr>db_catalog := db_catalog db @ [row]\<rparr>))"

definition catalog_delete :: "(Tables \<Rightarrow> bool) \<Rightarrow> sqldb \<Rightarrow> string + sqldb" where
  "catalog_delete p db = Inr (db\<lparr>db_catalog := filter (\<lambda>r. \<not> p r) (db_catalog db)\<rparr>)"

definition catalog_rename :: "string \<Rightarrow> string \<Rightarrow> sqldb \<Rightarrow> string + sqldb" where
  "catalog_rename old new db =
     (if old \<noteq> new \<and> list_ex (\<lambda>r. Tables_Name r = old) (db_catalog db)
         \<and> list_ex (\<lambda>r. Tables_Name r = new) (db_catalog db)
      then Inl ''UNIQUE constraint failed: _table.name''
      else Inr (db\<lparr>db_catalog :=
                     map (\<lambda>r. if Tables_Name r = old then r\<lparr>Tables_Name := new\<rparr> else r)
                       (db_catalog db)\<rparr>))"

definition count_trigger :: "string \<Rightarrow> sqldb \<Rightarrow> nat" where
  "count_trigger name db = length (filter (\<lambda>kv. fst kv = name) (db_triggers db))"

text \<open>A new catalog row; the five rule columns take their default \<open>ADMIN_ONLY\<close>.\<close>

definition new_Tables :: "string \<Rightarrow> bool \<Rightarrow> Index list option \<Rightarrow> Tables" where
  "new_Tables name auth indexes =
     \<lparr>Tables_Name = name, Tables_Auth = auth, Tables_System = False,
      Tables_Indexes = indexes, Tables_SystemIndex = [],
      Tables_ViewRule = ''ADMIN_ONLY'', Tables_ReadRule = ''ADMIN_ONLY'',
      Tables_InsertRule = ''ADMIN_ONLY'', Tables_UpdateRule = ''ADMIN_ONLY'',
      Tables_DeleteRule = ''ADMIN_ONLY''\<rparr>"

definition trigger_text :: "string \<Rightarrow> string" where
  "trigger_text name =
     [nl, tab, tab, tab] @ ''CREATE TRIGGER updated_timestamp_'' @ name
       @ [nl, tab, tab, tab] @ ''AFTER UPDATE ON '' @ name
       @ [nl, tab, tab, tab] @ ''FOR EACH ROW''
       @ [nl, tab, tab, tab] @ ''BEGIN''
       @ [nl, tab, tab, tab, tab] @ ''UPDATE '' @ name
       @ '' SET updated_at = CURRENT_TIMESTAMP WHERE id = OLD.id;''
       @ [nl, tab, tab, tab] @ ''END''
       @ [nl, tab, tab, tab]"

text \<open>Statements run one after the other on a handle, stopping at the first error.\<close>

fun exec_all ::
  "handle \<Rightarrow> ('s \<Rightarrow> string + 's) list \<Rightarrow> 's conn \<Rightarrow> string option \<times> 's conn" where
  "exec_all h [] c = (None, c)"
| "exec_all h (opn # ops) c =
     (case exec h opn c of
        (Some e, c') \<Rightarrow> (Some e, c')
      | (None, c') \<Rightarrow> exec_all h ops c')"

definition to_result :: "string option \<times> 's conn \<Rightarrow> unit result \<times> 's conn" where
  "to_result r = (case r of (None, c) \<Rightarrow> (Ok (), c) | (Some e, c) \<Rightarrow> (Err e, c))"

definition of_result :: "unit result \<times> 's conn \<Rightarrow> string option \<times> 's conn" where
  "of_result r =
     (case r of (Ok u, c) \<Rightarrow> (None, c) | (Err e, c) \<Rightarrow> (Some e, c)
      | (Panic, c) \<Rightarrow> (Some ''panic'', c))"

section \<open>api/database.go: the CreateTable and DeleteTable handlers\<close>

text \<open>
  The callback of \<open>d.db.Transaction(func(tx *gorm.DB) error {...})\<close> in \<open>CreateTable\<close>, with
  the handle its statements are executed on as the parameter \<open>db\<close>.
\<close>

definition CreateTable_callback ::
  "handle \<Rightarrow> createTableReq \<Rightarrow> string \<Rightarrow> string list \<Rightarrow> bool \<Rightarrow> sqldb conn
     \<Rightarrow> string option \<times> sqldb conn" where
  "CreateTable_callback db params query indexes isAuth c =
     (case exec db (run_sql query) c of
        (Some e, c1) \<Rightarrow> (Some e, c1)
      | (None, c1) \<Rightarrow>
     (case exec_all db (map run_sql indexes) c1 of
        (Some e, c2) \<Rightarrow> (Some e, c2)
      | (None, c2) \<Rightarrow>
     (let triggerHolder =
            count_trigger (''updated_timestamp_'' @ req_TableName params) (view db c2) in
      case (if triggerHolder = 0
            then exec db (run_sql (trigger_text (req_TableName params))) c2
            else (None, c2)) of
        (Some e, c3) \<Rightarrow> (Some e, c3)
      | (None, c3) \<Rightarrow>
          exec db (catalog_insert (new_Tables (req_TableName params) isAuth None)) c3)))"

text \<open>
  The handler. Every statement of the callback is executed on \<open>d.db\<close>, the pool handle; the
  transaction handle \<open>tx\<close> that the callback receives is not used. \<open>None\<close> is the response
  with status 200, \<open>Some e\<close> an error response.
\<close>

definition DatabaseAPI_CreateTable ::
  "createTableReq \<Rightarrow> sqldb conn \<Rightarrow> string option \<times> sqldb conn" where
  "DatabaseAPI_CreateTable params c =
     (case CreateTable_id params of
        None \<Rightarrow> (Some ''Invalid id type'', c)
      | Some idc \<Rightarrow>
          (case CreateTable_columns params idc of
             (cols, foreignKeys, uniques, indexes) \<Rightarrow>
               (let flds = ((cols @ timestampFields) @ uniques) @ foreignKeys;
                    query = [nl, tab, tab] @ ''CREATE TABLE '' @ req_TableName params @ '' (''
                      @ [nl, tab, tab, tab] @ Join flds '','' @ [nl, tab, tab] @ '')''
                      @ [nl, tab]
                in of_result
                     (Transaction
                        (\<lambda>tx c'. to_result
                           (CreateTable_callback Pool params query indexes
                              (req_Type params = ''users'') c'))
                        c))))"

definition DatabaseAPI_DeleteTable ::
  "(string \<Rightarrow> string) \<Rightarrow> string \<Rightarrow> sqldb conn \<Rightarrow> string option \<times> sqldb conn" where
  "DatabaseAPI_DeleteTable lower tableName c =
     of_result
       (Transaction
          (\<lambda>tx c'. to_result
             (exec_all Pool
                [run_sql (''DROP TABLE '' @ tableName),
                 catalog_delete (\<lambda>r. ascii_lower (Tables_Name r) = lower tableName)]
                c'))
          c)"


subsection \<open>Two create requests with an indexed field of the same name\<close>

definition indexed_title_req :: "string \<Rightarrow> createTableReq" where
  "indexed_title_req name =
     \<lparr>req_TableName = name, req_IDType = ''string'',
      req_Fields =
        [\<lparr>fields_FieldType = ''text'', fields_FieldName = ''title'', fields_Nullable = False,
           fields_RelatedTable = [], fields_Indexed = True, fields_Unique = False\<rparr>],
      req_Type = ''plain''\<rparr>"

definition title_columns :: "string list" where
  "title_columns =
     [''id TEXT PRIMARY KEY DEFAULT (hex(randomblob(8)))'', ''title TEXT NOT NULL'',
      ''created_at TIMESTAMP DEFAULT CURRENT_TIMESTAMP'',
      ''updated_at TIMESTAMP DEFAULT CURRENT_TIMESTAMP'']"

text \<open>The state after the first request, for the table \<open>t1\<close>, was served.\<close>

definition db_after_t1 :: sqldb where
  "db_after_t1 =
     \<lparr>db_tables = [(''t1'', title_columns)],
      db_indexes = [(''idx_title'', ''t1'')],
      db_triggers = [(''updated_timestamp_t1'', ''t1'')],
      db_catalog = [new_Tables ''t1'' False None]\<rparr>"


section \<open>The table service (TableServiceImpl)\<close>

text \<open>
  The service reads through \<open>s.db\<close> (the pool handle) and keeps a cache (\<open>go-cache\<close>) of
  descriptors and column lists by key. Expiry is not modelled: an entry stays until it is
  overwritten, so what is proved about a cached entry concerns calls made before it
  expires. A cached value is asserted to its type when read.
\<close>

datatype cached = CTables Tables | CColumns "gomap list"

record service =
  svc_db :: "sqldb conn"
  svc_cache :: "(string \<times> cached) list"

definition default_info :: "string list" where
  "default_info =
     [''name'', ''auth'', ''indexes'', ''system'', ''view_rule'', ''read_rule'',
      ''insert_rule'', ''update_rule'', ''delete_rule'']"

text \<open>
  \<open>Model(&model.Tables{}).Select(infoNeeded).Where("name = ?", tableName).First(&table)\<close>:
  an unknown column is an error of the engine, a missing row is \<open>ErrRecordNotFound\<close>, and
  the attributes that are not selected keep their zero value.
\<close>

definition select_fields :: "string list \<Rightarrow> Tables \<Rightarrow> Tables" where
  "select_fields fs r =
     \<lparr>Tables_Name = (if ''name'' \<in> set fs then Tables_Name r else []),
      Tables_Auth = (if ''auth'' \<in> set fs then Tables_Auth r else False),
      Tables_System = (if ''system'' \<in> set fs then Tables_System r else False),
      Tables_Indexes = (if ''indexes'' \<in> set fs then Tables_Indexes r else None),
      Tables_SystemIndex = [],
      Tables_ViewRule = (if ''view_rule'' \<in> set fs then Tables_ViewRule r else []),
      Tables_ReadRule = (if ''read_rule'' \<in> set fs then Tables_ReadRule r else []),
      Tables_InsertRule = (if ''insert_rule'' \<in> set fs then Tables_InsertRule r else []),
      Tables_UpdateRule = (if ''update_rule'' \<in> set fs then Tables_UpdateRule r else []),
      Tables_DeleteRule = (if ''delete_rule'' \<in> set fs then Tables_DeleteRule r else [])\<rparr>"

definition catalog_select :: "string list \<Rightarrow> string \<Rightarrow> sqldb \<Rightarrow> string + Tables" where
  "catalog_select fs name db =
     (case find (\<lambda>f. f \<notin> set default_info) fs of
        Some f \<Rightarrow> Inl (''no such column: '' @ f)
      | None \<Rightarrow>
          (case find (\<lambda>r. Tables_Name r = name) (db_catalog db) of
             None \<Rightarrow> Inl ''record not found''
           | Some r \<Rightarrow> Inr (select_fields fs r)))"

definition Info_cacheKey :: "string \<Rightarrow> string list \<Rightarrow> string" where
  "Info_cacheKey tableName infoNeeded =
     ''table_'' @ Join (if infoNeeded = [] then default_info else infoNeeded) '';''
       @ tableName"

definition Info :: "string \<Rightarrow> string list \<Rightarrow> service \<Rightarrow> Tables result \<times> service" where
  "Info tableName infoNeeded0 s =
     (let infoNeeded = (if infoNeeded0 = [] then default_info else infoNeeded0);
          cacheKey = ''table_'' @ Join infoNeeded '';'' @ tableName
      in
      case map_of (svc_cache s) cacheKey of
        Some (CTables t) \<Rightarrow> (Ok t, s)
      | Some (CColumns rows) \<Rightarrow> (Panic, s)
      | None \<Rightarrow>
          (case catalog_select infoNeeded tableName (view Pool (svc_db s)) of
             Inl e \<Rightarrow> (Err e, s)
           | Inr table \<Rightarrow>
               if ''indexes'' \<in> set infoNeeded then
                 (case Tables_Indexes table of
                    None \<Rightarrow> (Err ''unexpected end of JSON input'', s)
                  | Some index \<Rightarrow>
                      (let table' = table\<lparr>Tables_SystemIndex := index\<rparr> in
                       (Ok table',
                        s\<lparr>svc_cache := AList.update cacheKey (CTables table') (svc_cache s)\<rparr>)))
               else
                 (Ok table,
                  s\<lparr>svc_cache := AList.update cacheKey (CTables table) (svc_cache s)\<rparr>)))"

text \<open>
  \<open>Create\<close>, \<open>Rename\<close>, \<open>Drop\<close> and \<open>DropIndexes\<close> work on the handle \<open>tx\<close> they are given and on
  nothing else.
\<close>

definition Create ::
  "(string \<Rightarrow> string) \<Rightarrow> handle \<Rightarrow> CreateTable \<Rightarrow> sqldb conn
     \<Rightarrow> string option \<times> sqldb conn" where
  "Create lower tx params c =
     (case exec tx (run_sql (Create_query lower params)) c of
        (Some e, c1) \<Rightarrow> (Some e, c1)
      | (None, c1) \<Rightarrow>
     (case exec_all tx
             (map (\<lambda>index. run_sql
                     (''CREATE INDEX '' @ Index_Name index @ '' ON '' @ CreateTable_Name params
                        @ '' ('' @ Join (Index_Indexes index) '','' @ '')''))
                (CreateTable_Indexes params)) c1 of
        (Some e, c2) \<Rightarrow> (Some e, c2)
      | (None, c2) \<Rightarrow>
     (let triggerHolder =
            count_trigger (''updated_timestamp_'' @ CreateTable_Name params) (view tx c2) in
      case (if triggerHolder = 0
            then exec tx (run_sql (trigger_text (CreateTable_Name params))) c2
            else (None, c2)) of
        (Some e, c3) \<Rightarrow> (Some e, c3)
      | (None, c3) \<Rightarrow>
          exec tx
            (catalog_insert
               (new_Tables (CreateTable_Name params) (CreateTable_Type params = ''users'')
                  (Some (CreateTable_Indexes params)))) c3)))"

definition Rename :: "handle \<Rightarrow> string \<Rightarrow> string \<Rightarrow> sqldb conn \<Rightarrow> string option \<times> sqldb conn" where
  "Rename tx tableName newTableName c =
     exec_all tx
       [catalog_rename tableName newTableName,
        run_sql (''ALTER TABLE '' @ tableName @ '' RENAME TO '' @ newTableName)] c"

definition Drop :: "handle \<Rightarrow> string \<Rightarrow> sqldb conn \<Rightarrow> string option \<times> sqldb conn" where
  "Drop tx tableName c =
     exec_all tx
       [catalog_delete (\<lambda>r. Tables_Name r = tableName),
        run_sql (''DROP TABLE '' @ tableName)] c"

definition DropIndexes :: "handle \<Rightarrow> string list \<Rightarrow> sqldb conn \<Rightarrow> string option \<times> sqldb conn" where
  "DropIndexes tx indexes c =
     exec_all tx (map (\<lambda>index. run_sql (''DROP INDEX IF EXISTS '' @ index)) indexes) c"

subsection \<open>Column introspection\<close>










text \<open>
  Modelled from the spec: the callers of the service are not in the sources. Per the spec
  every schema mutation executes inside one write transaction: the caller opens the
  transaction and passes its handle to the service.
\<close>

definition in_transaction ::
  "(handle \<Rightarrow> sqldb conn \<Rightarrow> string option \<times> sqldb conn) \<Rightarrow> service \<Rightarrow> string option \<times> service" where
  "in_transaction f s =
     (case of_result (Transaction (\<lambda>tx c. to_result (f tx c)) (svc_db s)) of
        (r, c') \<Rightarrow> (r, s\<lparr>svc_db := c'\<rparr>))"



subsection \<open>A scenario: a plain table dropped and created again as an auth table\<close>

definition plain_req :: "string \<Rightarrow> string \<Rightarrow> CreateTable" where
  "plain_req name kind =
     \<lparr>CreateTable_Name = name, CreateTable_Fields = [], CreateTable_Indexes = [],
      CreateTable_Type = kind\<rparr>"

definition svc0 :: service where
  "svc0 = \<lparr>svc_db = \<lparr>committed = empty_db, pending = []\<rparr>, svc_cache = []\<rparr>"

definition svc1 :: service where
  "svc1 = snd (in_transaction (\<lambda>tx. Create ascii_lower tx (plain_req ''u'' ''plain'')) svc0)"

definition svc2 :: service where
  "svc2 = snd (Info ''u'' [] svc1)"

definition svc3 :: service where
  "svc3 = snd (in_transaction (\<lambda>tx. Drop tx ''u'') svc2)"




text \<open>The live table \<open>u\<close> of the scenario as a plain and as an auth table, and its catalog row.\<close>

definition u_db :: "bool \<Rightarrow> sqldb" where
  "u_db auth =
     \<lparr>db_tables =
        [(''u'', [''id INTEGER PRIMARY KEY''] @ (if auth then authFields else [])
                  @ timestampFields)],
      db_indexes = [],
      db_triggers = [(''updated_timestamp_u'', ''u'')],
      db_catalog = [new_Tables ''u'' auth (Some [])]\<rparr>"

definition u_cache :: "(string \<times> cached) list" where
  "u_cache = [(Info_cacheKey ''u'' [], CTables (new_Tables ''u'' False (Some [])))]"


section \<open>Properties of the generated statement\<close>

lemma Create_loop_closed:
  "Create_loop lower fs (cols, foreignKeys, uniques) =
     (cols @ map (column_def lower) (filter (supported lower) fs),
      foreignKeys
        @ map foreign_key_clause (filter (\<lambda>f. supported lower f \<and> is_relation lower f) fs),
      uniques @ map unique_clause (filter (\<lambda>f. supported lower f \<and> Field_Unique f) fs))"
proof (induction fs arbitrary: cols foreignKeys uniques)
  case Nil
  show ?case by simp
next
  case (Cons f fs)
  show ?case
  proof (cases "ConvertTypeToSQLiteType lower f = []")
    case True
    then show ?thesis
      using Cons.IH by (simp add: supported_def)
  next
    case False
    then show ?thesis
      using Cons.IH
      by (simp add: supported_def is_relation_def column_def_def unique_clause_def
            foreign_key_clause_def Let_def)
  qed
qed

lemma relation_supported: "is_relation lower f \<Longrightarrow> supported lower f"
  by (simp add: is_relation_def supported_def)

lemma filter_relation:
  "filter (\<lambda>f. supported lower f \<and> is_relation lower f) fs = filter (is_relation lower) fs"
  by (rule filter_cong) (auto dest: relation_supported)

lemma CreateTable_loop_cols:
  "fst (CreateTable_loop tn fs (cols, foreignKeys, uniques, indexes)) =
     cols @ map column_def_t (filter supported_t fs)"
proof (induction fs arbitrary: cols foreignKeys uniques indexes)
  case Nil
  show ?case by simp
next
  case (Cons f fs)
  show ?case
    using Cons.IH by (simp add: supported_t_def column_def_t_def Let_def)
qed

text \<open>
  C9. Whatever \<open>strings.ToLower\<close> computes, the parts of the generated CREATE TABLE statement
  come in a fixed order: the synthetic id column, the reserved auth columns when the table
  type is \<open>users\<close>, one column for each field of a supported type in input order, the two
  timestamp columns, the UNIQUE constraints, the FOREIGN KEY clauses. A field is of a
  supported type when \<open>ConvertTypeToSQLiteType\<close> gives it a type; the other fields
  contribute nothing. The statement is the comma-joined list inside the CREATE TABLE
  template.
\<close>

theorem Create_statement_order:
  "Create_query lower p =
     [nl, tab, tab] @ ''CREATE TABLE '' @ CreateTable_Name p @ '' ('' @ [nl, tab, tab, tab]
       @ Join
           ([''id INTEGER PRIMARY KEY'']
              @ (if CreateTable_Type p = ''users'' then authFields else [])
              @ map (column_def lower) (filter (supported lower) (CreateTable_Fields p))
              @ timestampFields
              @ map unique_clause
                  (filter (\<lambda>f. supported lower f \<and> Field_Unique f) (CreateTable_Fields p))
              @ map foreign_key_clause (filter (is_relation lower) (CreateTable_Fields p)))
           '',''
       @ [nl, tab, tab] @ '')'' @ [nl, tab]"
  by (simp add: Create_query_def Create_fields_def Create_columns_def Create_loop_closed
        filter_relation)

lemma ascii_lower_examples:
  "ascii_lower ''Text'' = ''text''" "ascii_lower ''json'' = ''json''"
  "ascii_lower ''relation'' = ''relation''" "ascii_lower ''text'' = ''text''"
  by (simp_all add: ascii_lower_def ascii_lower_char_def)

text \<open>
  A request of type \<open>users\<close> with a unique text field, a field of the unknown type \<open>json\<close>
  and a relation: the statement it generates.
\<close>

theorem Create_statement_order_witness:
  "Create_query ascii_lower
     \<lparr>CreateTable_Name = ''members'',
      CreateTable_Fields =
        [\<lparr>Field_Type = ''Text'', Field_Name = ''title'', Field_Nullable = False,
           Field_Reference = [], Field_Unique = True\<rparr>,
         \<lparr>Field_Type = ''json'', Field_Name = ''extra'', Field_Nullable = True,
           Field_Reference = [], Field_Unique = True\<rparr>,
         \<lparr>Field_Type = ''relation'', Field_Name = ''owner'', Field_Nullable = True,
           Field_Reference = ''teams'', Field_Unique = False\<rparr>],
      CreateTable_Indexes = [], CreateTable_Type = ''users''\<rparr>
   = [nl, tab, tab] @ ''CREATE TABLE members ('' @ [nl, tab, tab, tab]
       @ ''id INTEGER PRIMARY KEY,email TEXT NOT NULL,password TEXT NOT NULL,''
       @ ''salt TEXT NOT NULL,title TEXT NOT NULL,owner TEXT,''
       @ ''created_at TIMESTAMP DEFAULT CURRENT_TIMESTAMP,''
       @ ''updated_at TIMESTAMP DEFAULT CURRENT_TIMESTAMP,''
       @ ''UNIQUE (title),FOREIGN KEY(owner) REFERENCES teams(id) ON UPDATE CASCADE''
       @ [nl, tab, tab] @ '')'' @ [nl, tab]"
  using Create_statement_order
    [of ascii_lower "\<lparr>CreateTable_Name = ''members'',
      CreateTable_Fields =
        [\<lparr>Field_Type = ''Text'', Field_Name = ''title'', Field_Nullable = False,
           Field_Reference = [], Field_Unique = True\<rparr>,
         \<lparr>Field_Type = ''json'', Field_Name = ''extra'', Field_Nullable = True,
           Field_Reference = [], Field_Unique = True\<rparr>,
         \<lparr>Field_Type = ''relation'', Field_Name = ''owner'', Field_Nullable = True,
           Field_Reference = ''teams'', Field_Unique = False\<rparr>],
      CreateTable_Indexes = [], CreateTable_Type = ''users''\<rparr>"]
  by (simp add: authFields_def timestampFields_def supported_def is_relation_def
        ConvertTypeToSQLiteType_def ascii_lower_examples column_def_def unique_clause_def
        foreign_key_clause_def)

lemma Create_table_columns_closed:
  "Create_table_columns lower p =
     [''id INTEGER PRIMARY KEY'']
       @ (if CreateTable_Type p = ''users'' then authFields else [])
       @ map (column_def lower) (filter (supported lower) (CreateTable_Fields p))
       @ timestampFields"
  by (simp add: Create_table_columns_def Create_columns_def Create_loop_closed)

lemma CreateTable_table_columns_closed:
  assumes "CreateTable_id r = Some idc"
  shows "CreateTable_table_columns r =
     Some ([idc]
       @ (if req_Type r = ''users'' then authFields else [])
       @ map column_def_t (filter supported_t (req_Fields r))
       @ timestampFields)"
proof -
  obtain cols fks uqs ixs where c: "CreateTable_columns r idc = (cols, fks, uqs, ixs)"
    by (cases "CreateTable_columns r idc") auto
  have "fst (CreateTable_columns r idc) =
          ([idc] @ (if req_Type r = ''users'' then authFields else []))
            @ map column_def_t (filter supported_t (req_Fields r))"
    unfolding CreateTable_columns_def by (rule CreateTable_loop_cols)
  with c have "cols = ([idc] @ (if req_Type r = ''users'' then authFields else []))
            @ map column_def_t (filter supported_t (req_Fields r))"
    by simp
  with c assms show ?thesis
    by (simp add: CreateTable_table_columns_def)
qed

lemma col_name_id:
  "CreateTable_id r = Some idc \<Longrightarrow> col_name idc = ''id''"
  by (auto simp: CreateTable_id_def col_name_def split: if_splits)

lemma col_name_reserved:
  "map col_name authFields = [''email'', ''password'', ''salt'']"
  "map col_name timestampFields = [''created_at'', ''updated_at'']"
  "col_name ''id INTEGER PRIMARY KEY'' = ''id''"
  by (simp_all add: authFields_def timestampFields_def col_name_def)

lemma plain_name_no_blank: "plain_name s \<Longrightarrow> CHR '' '' \<notin> set s"
  by (auto simp: plain_name_def list_all_iff)

lemma takeWhile_blank:
  "CHR '' '' \<notin> set s \<Longrightarrow> takeWhile (\<lambda>c. c \<noteq> CHR '' '') (s @ CHR '' '' # d) = s"
  by (induction s) auto

lemma col_name_plain: "plain_name s \<Longrightarrow> col_name (s @ CHR '' '' # d) = s"
  using plain_name_no_blank [of s] by (simp add: col_name_def takeWhile_blank)

lemma col_name_column_def:
  "list_all (\<lambda>f. plain_name (Field_Name f)) fs
     \<Longrightarrow> map (col_name \<circ> column_def lower) fs = map Field_Name fs"
  by (induction fs) (simp_all add: column_def_def col_name_plain)

lemma col_name_column_def_t:
  "list_all (\<lambda>f. plain_name (fields_FieldName f)) fs
     \<Longrightarrow> map (col_name \<circ> column_def_t) fs = map fields_FieldName fs"
  by (induction fs) (simp_all add: column_def_t_def col_name_plain)

text \<open>
  C8, as stated, fails: a create request of kind \<open>users\<close> that supplies a text field
  \<open>nickname\<close> produces a table with seven columns, in the service as in the older handler.
\<close>

theorem auth_table_columns_counterexample:
  "CreateTable_Type
     \<lparr>CreateTable_Name = ''members'',
      CreateTable_Fields =
        [\<lparr>Field_Type = ''text'', Field_Name = ''nickname'', Field_Nullable = False,
           Field_Reference = [], Field_Unique = False\<rparr>],
      CreateTable_Indexes = [], CreateTable_Type = ''users''\<rparr> = ''users''
   \<and> map col_name (Create_table_columns ascii_lower
     \<lparr>CreateTable_Name = ''members'',
      CreateTable_Fields =
        [\<lparr>Field_Type = ''text'', Field_Name = ''nickname'', Field_Nullable = False,
           Field_Reference = [], Field_Unique = False\<rparr>],
      CreateTable_Indexes = [], CreateTable_Type = ''users''\<rparr>)
     = [''id'', ''email'', ''password'', ''salt'', ''nickname'', ''created_at'', ''updated_at'']
   \<and> map col_name (Create_table_columns ascii_lower
     \<lparr>CreateTable_Name = ''members'',
      CreateTable_Fields =
        [\<lparr>Field_Type = ''text'', Field_Name = ''nickname'', Field_Nullable = False,
           Field_Reference = [], Field_Unique = False\<rparr>],
      CreateTable_Indexes = [], CreateTable_Type = ''users''\<rparr>)
     \<noteq> reserved_auth_columns
   \<and> map_option (map col_name) (CreateTable_table_columns
     \<lparr>req_TableName = ''members'', req_IDType = ''manual'',
      req_Fields =
        [\<lparr>fields_FieldType = ''text'', fields_FieldName = ''nickname'',
           fields_Nullable = False, fields_RelatedTable = [], fields_Indexed = False,
           fields_Unique = False\<rparr>],
      req_Type = ''users''\<rparr>)
     = Some [''id'', ''email'', ''password'', ''salt'', ''nickname'', ''created_at'',
             ''updated_at'']"
  by (simp add: Create_table_columns_def Create_columns_def ConvertTypeToSQLiteType_def
        ascii_lower_examples authFields_def timestampFields_def col_name_def
        reserved_auth_columns_def CreateTable_table_columns_def CreateTable_columns_def
        CreateTable_id_def convertTypeToSQLiteType_def)

text \<open>
  C8, amended. Take a create request of type \<open>users\<close> in which every field of a supported
  type has a plain identifier for its name (letters, digits, underscore), so that each
  column definition of the statement declares one column. The table has the columns id,
  email, password, salt first and created_at, updated_at last, and between them one column
  for each supplied field of a supported type, under that field's name and in input order.
  This holds for the service's \<open>Create\<close>, whatever \<open>strings.ToLower\<close> computes, and for the
  older \<open>CreateTable\<close> handler (whenever that accepts the id type). The columns are exactly
  the six reserved ones precisely when no supplied field has a supported type.
\<close>

theorem auth_table_columns:
  assumes "CreateTable_Type p = ''users''"
    and "list_all (\<lambda>f. plain_name (Field_Name f))
           (filter (supported lower) (CreateTable_Fields p))"
    and "req_Type r = ''users''"
    and "CreateTable_id r = Some idc"
    and "list_all (\<lambda>f. plain_name (fields_FieldName f)) (filter supported_t (req_Fields r))"
  shows "map col_name (Create_table_columns lower p) =
           [''id'', ''email'', ''password'', ''salt'']
             @ map Field_Name (filter (supported lower) (CreateTable_Fields p))
             @ [''created_at'', ''updated_at'']
         \<and> ((map col_name (Create_table_columns lower p) = reserved_auth_columns)
              = (filter (supported lower) (CreateTable_Fields p) = []))
         \<and> map_option (map col_name) (CreateTable_table_columns r) =
             Some ([''id'', ''email'', ''password'', ''salt'']
               @ map fields_FieldName (filter supported_t (req_Fields r))
               @ [''created_at'', ''updated_at''])
         \<and> ((map_option (map col_name) (CreateTable_table_columns r)
                = Some reserved_auth_columns)
              = (filter supported_t (req_Fields r) = []))"
proof (intro conjI)
  show 1: "map col_name (Create_table_columns lower p) =
           [''id'', ''email'', ''password'', ''salt'']
             @ map Field_Name (filter (supported lower) (CreateTable_Fields p))
             @ [''created_at'', ''updated_at'']"
    using assms(1) col_name_column_def [OF assms(2), of lower]
    by (simp add: Create_table_columns_closed col_name_reserved)
  show "(map col_name (Create_table_columns lower p) = reserved_auth_columns)
           = (filter (supported lower) (CreateTable_Fields p) = [])"
  proof
    assume "map col_name (Create_table_columns lower p) = reserved_auth_columns"
    then have "length (map col_name (Create_table_columns lower p)) = 6"
      by (simp add: reserved_auth_columns_def)
    then show "filter (supported lower) (CreateTable_Fields p) = []"
      unfolding 1 by simp
  next
    assume "filter (supported lower) (CreateTable_Fields p) = []"
    then show "map col_name (Create_table_columns lower p) = reserved_auth_columns"
      unfolding 1 by (simp add: reserved_auth_columns_def)
  qed
  show 2: "map_option (map col_name) (CreateTable_table_columns r) =
           Some ([''id'', ''email'', ''password'', ''salt'']
             @ map fields_FieldName (filter supported_t (req_Fields r))
             @ [''created_at'', ''updated_at''])"
    using assms(3,4) col_name_column_def_t [OF assms(5)]
    by (simp add: CreateTable_table_columns_closed col_name_id col_name_reserved)
  show "(map_option (map col_name) (CreateTable_table_columns r) = Some reserved_auth_columns)
           = (filter supported_t (req_Fields r) = [])"
  proof
    assume "map_option (map col_name) (CreateTable_table_columns r)
              = Some reserved_auth_columns"
    then have "length ([''id'', ''email'', ''password'', ''salt'']
             @ map fields_FieldName (filter supported_t (req_Fields r))
             @ [''created_at'', ''updated_at'']) = 6"
      unfolding 2 by (simp add: reserved_auth_columns_def)
    then show "filter supported_t (req_Fields r) = []"
      by simp
  next
    assume "filter supported_t (req_Fields r) = []"
    then show "map_option (map col_name) (CreateTable_table_columns r)
                 = Some reserved_auth_columns"
      unfolding 2 by (simp add: reserved_auth_columns_def)
  qed
qed

text \<open>
  A request of type \<open>users\<close> with a text field \<open>nickname\<close> and a field of the unknown type
  \<open>json\<close>, and a request to the older handler with no field at all.
\<close>

theorem auth_table_columns_witness:
  "map col_name (Create_table_columns ascii_lower
     \<lparr>CreateTable_Name = ''members'',
      CreateTable_Fields =
        [\<lparr>Field_Type = ''text'', Field_Name = ''nickname'', Field_Nullable = False,
           Field_Reference = [], Field_Unique = False\<rparr>,
         \<lparr>Field_Type = ''json'', Field_Name = ''extra'', Field_Nullable = True,
           Field_Reference = [], Field_Unique = False\<rparr>],
      CreateTable_Indexes = [], CreateTable_Type = ''users''\<rparr>)
     = [''id'', ''email'', ''password'', ''salt'', ''nickname'', ''created_at'', ''updated_at'']
   \<and> map_option (map col_name) (CreateTable_table_columns
     \<lparr>req_TableName = ''members'', req_IDType = ''string'', req_Fields = [],
      req_Type = ''users''\<rparr>)
     = Some reserved_auth_columns"
  using auth_table_columns
    [of "\<lparr>CreateTable_Name = ''members'',
      CreateTable_Fields =
        [\<lparr>Field_Type = ''text'', Field_Name = ''nickname'', Field_Nullable = False,
           Field_Reference = [], Field_Unique = False\<rparr>,
         \<lparr>Field_Type = ''json'', Field_Name = ''extra'', Field_Nullable = True,
           Field_Reference = [], Field_Unique = False\<rparr>],
      CreateTable_Indexes = [], CreateTable_Type = ''users''\<rparr>"
     ascii_lower
     "\<lparr>req_TableName = ''members'', req_IDType = ''string'', req_Fields = [],
      req_Type = ''users''\<rparr>"
     "''id TEXT PRIMARY KEY DEFAULT (hex(randomblob(8)))''"]
  by (simp add: CreateTable_id_def supported_def ConvertTypeToSQLiteType_def
        ascii_lower_examples plain_name_def reserved_auth_columns_def)

section \<open>Properties of template binding\<close>

lemma bind_value_str:
  "is_str v \<Longrightarrow> \<exists>x. bind_value k v input savedData userID = Some x"
  by (cases v) (simp_all add: is_str_def bind_value_def Let_def)

lemma bind_value_None:
  "(bind_value k v input savedData userID = None) = (\<not> is_str v)"
  by (cases v) (simp_all add: is_str_def bind_value_def Let_def)

lemma BindSingularInput_loop_not_Err:
  "BindSingularInput_loop t input savedData userID res \<noteq> Err e"
  by (induction t input savedData userID res rule: BindSingularInput_loop.induct)
     (auto split: option.splits)

lemma BindSingularInput_loop_Panic:
  "(BindSingularInput_loop t input savedData userID res = Panic) = (\<not> template_ok t)"
proof (induction t input savedData userID res rule: BindSingularInput_loop.induct)
  case (1 input savedData userID res)
  show ?case by (simp add: template_ok_def)
next
  case (2 k v template input savedData userID res)
  show ?case
  proof (cases "bind_value k v input savedData userID")
    case None
    then show ?thesis
      using bind_value_None [of k v input savedData userID]
      by (simp add: template_ok_def)
  next
    case (Some x)
    then have "is_str v"
      using bind_value_None [of k v input savedData userID] by simp
    with Some 2 show ?thesis
      by (simp add: template_ok_def)
  qed
qed

lemma BindSingularInput_loop_keeps:
  "BindSingularInput_loop t input savedData userID res = Ok r \<Longrightarrow> k \<notin> fst ` set t
     \<Longrightarrow> map_of r k = map_of res k"
proof (induction t input savedData userID res rule: BindSingularInput_loop.induct)
  case (1 input savedData userID res)
  then show ?case by simp
next
  case (2 k' v template input savedData userID res)
  then show ?case
    by (auto split: option.splits simp: update_conv')
qed

lemma BindSingularInput_loop_binds:
  "BindSingularInput_loop t input savedData userID res = Ok r \<Longrightarrow> distinct (map fst t)
     \<Longrightarrow> (k, v) \<in> set t \<Longrightarrow> map_of r k = bind_value k v input savedData userID"
proof (induction t input savedData userID res rule: BindSingularInput_loop.induct)
  case (1 input savedData userID res)
  then show ?case by simp
next
  case (2 k' v' template input savedData userID res)
  show ?case
  proof (cases "(k, v) = (k', v')")
    case True
    obtain x where x: "bind_value k' v' input savedData userID = Some x"
      using "2.prems"(1) by (auto split: option.splits)
    with "2.prems" have rest:
      "BindSingularInput_loop template input savedData userID (AList.update k' x res) = Ok r"
      by simp
    have "k' \<notin> fst ` set template"
      using "2.prems"(2) by force
    from BindSingularInput_loop_keeps [OF rest this] x True show ?thesis
      by (simp add: update_conv')
  next
    case False
    obtain x where x: "bind_value k' v' input savedData userID = Some x"
      using "2.prems"(1) by (auto split: option.splits)
    with "2.prems" have rest:
      "BindSingularInput_loop template input savedData userID (AList.update k' x res) = Ok r"
      by simp
    from False "2.prems"(3) have "(k, v) \<in> set template" by auto
    with "2.IH" [OF x rest] "2.prems"(2) show ?thesis by simp
  qed
qed

lemma BindSingularInput_cases:
  "(template_ok t \<and> (\<exists>r. BindSingularInput t input savedData userID = Ok r))
   \<or> (\<not> template_ok t \<and> BindSingularInput t input savedData userID = Panic)"
  unfolding BindSingularInput_def
  using BindSingularInput_loop_Panic [of t input savedData userID "[]"]
        BindSingularInput_loop_not_Err [of t input savedData userID "[]"]
  by (cases "BindSingularInput_loop t input savedData userID []") auto

lemma BindSingularInput_not_Err:
  "BindSingularInput t input savedData userID \<noteq> Err e"
  by (simp add: BindSingularInput_def BindSingularInput_loop_not_Err)

lemma BindMultipleInput_loop_not_Err:
  "BindMultipleInput_loop t inputs savedData userID res \<noteq> Err e"
proof (induction inputs arbitrary: res)
  case Nil
  show ?case by simp
next
  case (Cons x xs)
  show ?case
    using Cons.IH
    by (cases x; cases "BindSingularInput t (case x of VObj m \<Rightarrow> m | _ \<Rightarrow> []) savedData userID")
       (auto simp: BindSingularInput_not_Err)
qed

lemma BindMultipleInput_not_Err:
  "BindMultipleInput t inputs savedData userID \<noteq> Err e"
  by (simp add: BindMultipleInput_def BindMultipleInput_loop_not_Err)

lemma unresolved_binds_nil:
  assumes "(k, VStr (CHR ''$'' # name)) \<in> set template"
    and "distinct (map fst template)"
    and "name \<noteq> ''user.id''"
    and "map_of savedData name = None"
    and "BindSingularInput template input savedData userID = Ok b"
  shows "map_of b k = Some VNil"
proof -
  have "map_of b k = bind_value k (VStr (CHR ''$'' # name)) input savedData userID"
    using assms(5,2,1) unfolding BindSingularInput_def
    by (rule BindSingularInput_loop_binds)
  also have "\<dots> = Some VNil"
    using assms(3,4) by (simp add: bind_value_def lookup_def)
  finally show ?thesis .
qed

lemma BindMultipleInput_loop_rows:
  "BindMultipleInput_loop t inputs savedData userID res = Ok rs
     \<Longrightarrow> \<exists>bs. rs = res @ bs \<and> length bs = length inputs
           \<and> (\<forall>r \<in> set bs. \<exists>m. BindSingularInput t m savedData userID = Ok r)"
proof (induction inputs arbitrary: res)
  case Nil
  then show ?case by simp
next
  case (Cons x xs)
  from Cons.prems obtain m where m: "x = VObj m"
    by (cases x) auto
  from Cons.prems m obtain r where r: "BindSingularInput t m savedData userID = Ok r"
    by (cases "BindSingularInput t m savedData userID") auto
  from Cons.prems m r have "BindMultipleInput_loop t xs savedData userID (res @ [r]) = Ok rs"
    by simp
  from Cons.IH [OF this] obtain bs where
    bs: "rs = (res @ [r]) @ bs" "length bs = length xs"
      "\<forall>r \<in> set bs. \<exists>m. BindSingularInput t m savedData userID = Ok r"
    by blast
  show ?case
    using bs r by (intro exI [of _ "r # bs"]) auto
qed

lemma BindMultipleInput_rows:
  assumes "BindMultipleInput t inputs savedData userID = Ok rs"
  shows "length rs = length inputs"
    and "\<forall>r \<in> set rs. \<exists>m. BindSingularInput t m savedData userID = Ok r"
  using BindMultipleInput_loop_rows [OF assms [unfolded BindMultipleInput_def]] by auto

text \<open>
  C6, as stated, fails: a template that binds \<open>fk\<close> to \<open>$A\<close> while the environment has no
  output \<open>A\<close> is bound without error, \<open>fk\<close> holding nil; run as a one-step function on the
  in-memory engine, the invocation answers with status 200 and the row is stored with a
  nil \<open>fk\<close>.
\<close>

theorem unresolved_token_counterexample:
  "BindSingularInput [(''fk'', VStr ''$A'')] [] [] ''u1'' = Ok [(''fk'', VNil)]
   \<and> RunFunction (mem_engine (\<lambda>t r s. True)) (\<lambda>n i. ''0123456789abcdef'')
       [\<lparr>Function_Name = ''B'', Function_Action = ''insert'', Function_Table = ''b'',
         Function_Multiple = False, Function_Values = [(''fk'', VStr ''$A'')],
         Function_Filter = [], Function_Columns = []\<rparr>]
       [(''B'', VObj [])] ''u1'' \<lparr>committed = [], pending = []\<rparr>
     = (Ok [(''B'', VStr ''0123456789abcdef'')],
        \<lparr>committed = [(''b'', [[(''fk'', VNil), (''id'', VStr ''0123456789abcdef'')]])],
         pending = []\<rparr>)"
  by (simp add: BindSingularInput_def bind_value_def lookup_def RunFunction_def
        Transaction_def RunFunction_step_def lift_exec_def exec_def view_def replay_def
        mem_engine_def mem_rows_def)

section \<open>Properties of the function interpreter\<close>

lemma exec_Tx_committed:
  "exec Tx opn c = (r, c') \<Longrightarrow> committed c' = committed c"
  by (auto simp: exec_def split: sum.splits)

lemma lift_exec_Tx_committed:
  "lift_exec (exec Tx opn c) x = (r, c') \<Longrightarrow> committed c' = committed c"
  by (cases "exec Tx opn c")
     (auto simp: lift_exec_def split: option.splits dest: exec_Tx_committed)

lemma lift_exec_not_Panic:
  "fst (lift_exec (exec h opn c) x) \<noteq> Panic"
  by (cases "exec h opn c") (auto simp: lift_exec_def split: option.splits)

lemma RunFunction_step_committed:
  "RunFunction_step E gen Tx f data userID st c = (r, c') \<Longrightarrow> committed c' = committed c"
  unfolding RunFunction_step_def
  by (auto split: prod.splits if_splits val.splits result.splits sum.splits
        dest: lift_exec_Tx_committed simp: Let_def)

lemma RunFunction_loop_committed:
  "RunFunction_loop E gen Tx fs data userID st c = (r, c') \<Longrightarrow> committed c' = committed c"
proof (induction fs arbitrary: st c)
  case Nil
  then show ?case by simp
next
  case (Cons f fs)
  obtain r1 c1 where s: "RunFunction_step E gen Tx f data userID st c = (r1, c1)"
    by (cases "RunFunction_step E gen Tx f data userID st c") auto
  have c1: "committed c1 = committed c"
    using s by (rule RunFunction_step_committed)
  show ?case
  proof (cases r1)
    case (Ok st')
    with Cons.prems s have "RunFunction_loop E gen Tx fs data userID st' c1 = (r, c')"
      by simp
    from Cons.IH [OF this] c1 show ?thesis by simp
  next
    case (Err e)
    with Cons.prems s c1 show ?thesis by auto
  next
    case Panic
    with Cons.prems s c1 show ?thesis by auto
  qed
qed

lemma RunFunction_rollback:
  assumes "RunFunction E gen fs data userID c = (r, c')" and "\<forall>env. r \<noteq> Ok env"
  shows "committed c' = committed c \<and> pending c' = []"
proof -
  obtain r1 c1 where l:
    "RunFunction_loop E gen Tx fs data userID ([], 0) (c\<lparr>pending := []\<rparr>) = (r1, c1)"
    by (cases "RunFunction_loop E gen Tx fs data userID ([], 0) (c\<lparr>pending := []\<rparr>)") auto
  have "committed c1 = committed c"
    using RunFunction_loop_committed [OF l] by simp
  with assms l show ?thesis
    by (cases r1) (auto simp: RunFunction_def Transaction_def)
qed

lemma BindMultipleInput_loop_not_Panic:
  "template_ok t \<Longrightarrow> list_all is_obj inputs
     \<Longrightarrow> \<exists>rs. BindMultipleInput_loop t inputs savedData userID res = Ok rs"
proof (induction inputs arbitrary: res)
  case Nil
  show ?case by simp
next
  case (Cons x xs)
  from Cons.prems(2) obtain m where m: "x = VObj m"
    by (cases x) (auto simp: is_obj_def)
  from Cons.prems(1) obtain r where r: "BindSingularInput t m savedData userID = Ok r"
    using BindSingularInput_cases [of t m savedData userID] by auto
  from Cons.IH [of "res @ [r]"] Cons.prems m r show ?case by simp
qed

lemma RunFunction_step_not_Panic:
  assumes "step_payload_ok f data"
  shows "fst (RunFunction_step E gen db f data userID st c) \<noteq> Panic"
proof -
  obtain savedData n where st: "st = (savedData, n)" by (cases st) auto
  consider (ins_m) "Function_Action f = ''insert''" "Function_Multiple f"
    | (ins_s) "Function_Action f = ''insert''" "\<not> Function_Multiple f"
    | (upd) "Function_Action f = ''update''"
    | (del) "Function_Action f = ''delete''"
    | (fetch) "Function_Action f = ''fetch''"
    | (other) "Function_Action f \<noteq> ''insert''" "Function_Action f \<noteq> ''update''"
        "Function_Action f \<noteq> ''delete''" "Function_Action f \<noteq> ''fetch''"
    by blast
  then show ?thesis
  proof cases
    case ins_m
    with assms obtain xs where xs: "lookup data (Function_Name f) = VArr xs" "list_all is_obj xs"
      by (auto simp: step_payload_ok_def is_obj_list_def split: val.splits)
    from assms ins_m have "template_ok (Function_Values f)"
      by (simp add: step_payload_ok_def)
    from BindMultipleInput_loop_not_Panic [OF this xs(2)]
    obtain rs where "BindMultipleInput (Function_Values f) xs savedData userID = Ok rs"
      unfolding BindMultipleInput_def by blast
    with ins_m xs st show ?thesis
      by (simp add: RunFunction_step_def lift_exec_not_Panic)
  next
    case ins_s
    with assms obtain m where m: "lookup data (Function_Name f) = VObj m"
      by (auto simp: step_payload_ok_def shape_ok_def is_obj_def split: val.splits)
    from assms ins_s have "template_ok (Function_Values f)"
      by (simp add: step_payload_ok_def)
    then obtain r where "BindSingularInput (Function_Values f) m savedData userID = Ok r"
      using BindSingularInput_cases [of "Function_Values f" m savedData userID] by auto
    with ins_s m st show ?thesis
      by (simp add: RunFunction_step_def lift_exec_not_Panic Let_def)
  next
    case upd
    with assms obtain m where m: "lookup data (Function_Name f) = VObj m"
      and nm: "\<not> Function_Multiple f"
      by (auto simp: step_payload_ok_def shape_ok_def is_obj_def split: val.splits)
    from assms upd have "template_ok (Function_Values f)"
      by (simp add: step_payload_ok_def)
    then obtain r where "BindSingularInput (Function_Values f) m savedData userID = Ok r"
      using BindSingularInput_cases [of "Function_Values f" m savedData userID] by auto
    with upd m nm st show ?thesis
      by (simp add: RunFunction_step_def lift_exec_not_Panic Let_def)
  next
    case del
    with assms obtain m where m: "lookup data (Function_Name f) = VObj m"
      by (auto simp: step_payload_ok_def shape_ok_def is_obj_def split: val.splits)
    with del st show ?thesis
      by (simp add: RunFunction_step_def lift_exec_not_Panic)
  next
    case fetch
    with st show ?thesis
      by (simp add: RunFunction_step_def split: sum.splits)
  next
    case other
    with st show ?thesis
      by (simp add: RunFunction_step_def)
  qed
qed

lemma RunFunction_loop_not_Panic:
  "list_all (\<lambda>f. step_payload_ok f data) fs
     \<Longrightarrow> fst (RunFunction_loop E gen db fs data userID st c) \<noteq> Panic"
proof (induction fs arbitrary: st c)
  case Nil
  show ?case by simp
next
  case (Cons f fs)
  obtain r1 c1 where s: "RunFunction_step E gen db f data userID st c = (r1, c1)"
    by (cases "RunFunction_step E gen db f data userID st c") auto
  from Cons.prems have "step_payload_ok f data" by simp
  from RunFunction_step_not_Panic [OF this, of E gen db userID st c] s
  have np: "r1 \<noteq> Panic" by simp
  from Cons.prems have rest: "list_all (\<lambda>f. step_payload_ok f data) fs" by simp
  show ?case
    using s np Cons.IH [OF rest] by (cases r1) auto
qed

lemma RunFunction_step_shape_Panic:
  assumes "\<not> shape_ok f data"
  shows "RunFunction_step E gen db f data userID st c = (Panic, c)"
proof -
  obtain savedData n where st: "st = (savedData, n)" by (cases st) auto
  show ?thesis
    using assms unfolding st RunFunction_step_def shape_ok_def is_obj_def
    by (auto split: if_splits val.splits)
qed

lemma exec_Tx:
  "exec Tx opn c =
     (case opn (view Tx c) of
        Inl e \<Rightarrow> (Some e, c)
      | Inr s' \<Rightarrow> (None, c\<lparr>pending := pending c @ [opn]\<rparr>))"
  by (simp add: exec_def split: sum.splits)

lemma lift_exec_Tx:
  "lift_exec (exec Tx opn c) x =
     (case opn (view Tx c) of
        Inl e \<Rightarrow> (Err e, c)
      | Inr s' \<Rightarrow> (Ok x, c\<lparr>pending := pending c @ [opn]\<rparr>))"
  by (simp add: exec_Tx lift_exec_def split: sum.splits)

lemma view_Tx_snoc:
  "opn (view Tx c) = Inr s' \<Longrightarrow> view Tx (c\<lparr>pending := pending c @ [opn]\<rparr>) = s'"
  by (simp add: view_def replay_def)

lemma assign_ids_length: "length (assign_ids gen n rs) = length rs"
  by (induction rs arbitrary: n) auto

lemma assign_ids_nth:
  "i < length rs \<Longrightarrow>
     assign_ids gen n rs ! i = AList.update ''id'' (VStr (gen 16 (n + i))) (rs ! i)"
proof (induction rs arbitrary: n i)
  case Nil
  then show ?case by simp
next
  case (Cons r rs)
  show ?case
  proof (cases i)
    case 0
    then show ?thesis by simp
  next
    case (Suc j)
    with Cons.prems have "j < length rs" by simp
    from Cons.IH [OF this, of "Suc n"] Suc show ?thesis by simp
  qed
qed

lemma assign_ids_keeps:
  assumes "k \<noteq> ''id''" and "\<forall>r \<in> set rs. map_of r k = v"
  shows "\<forall>r \<in> set (assign_ids gen n rs). map_of r k = v"
  using assms(2) by (induction rs arbitrary: n) (simp_all add: update_conv' assms(1))

text \<open>
  The insert and update steps on the transaction handle, written out: the step fails with
  the error of the storage operation or records the operation as pending.
\<close>

lemma insert_singular_step_rows:
  assumes "Function_Action f = ''insert''" and "\<not> Function_Multiple f"
    and "lookup data (Function_Name f) = VObj input"
    and "BindSingularInput (Function_Values f) input savedData userID = Ok b"
  shows "RunFunction_step E gen Tx f data userID (savedData, n) c =
     (case e_Create E (Function_Table f) (assign_ids gen n [b]) (view Tx c) of
        Inl e \<Rightarrow> (Err e, c)
      | Inr s' \<Rightarrow>
          (Ok (AList.update (Function_Name f) (VStr (gen 16 n)) savedData, Suc n),
           c\<lparr>pending := pending c
                @ [e_Create E (Function_Table f) (assign_ids gen n [b])]\<rparr>))"
  using assms
  by (simp add: RunFunction_step_def Let_def lift_exec_Tx lookup_def update_conv'
        split: sum.splits)

lemma insert_multiple_step_rows:
  assumes "Function_Action f = ''insert''" and "Function_Multiple f"
    and "lookup data (Function_Name f) = VArr inputs"
    and "BindMultipleInput (Function_Values f) inputs savedData userID = Ok binded"
  shows "RunFunction_step E gen Tx f data userID (savedData, n) c =
     (case e_Create E (Function_Table f) (assign_ids gen n binded) (view Tx c) of
        Inl e \<Rightarrow> (Err e, c)
      | Inr s' \<Rightarrow>
          (Ok (savedData, n + length binded),
           c\<lparr>pending := pending c
                @ [e_Create E (Function_Table f) (assign_ids gen n binded)]\<rparr>))"
  using assms
  by (simp add: RunFunction_step_def lift_exec_Tx)

lemma update_singular_step:
  assumes "Function_Action f = ''update''" and "\<not> Function_Multiple f"
    and "lookup data (Function_Name f) = VObj input"
    and "BindSingularInput (Function_Values f) input savedData userID = Ok b"
  shows "RunFunction_step E gen Tx f data userID (savedData, n) c =
     (case e_Updates E (Function_Table f) [(''id = ?'', lookup input ''id'')] b (view Tx c) of
        Inl e \<Rightarrow> (Err e, c)
      | Inr s' \<Rightarrow>
          (Ok (savedData, n),
           c\<lparr>pending := pending c
                @ [e_Updates E (Function_Table f) [(''id = ?'', lookup input ''id'')] b]\<rparr>))"
  using assms
  by (simp add: RunFunction_step_def Let_def lift_exec_Tx)

lemma insert_singular_inputs:
  assumes "Function_Action f = ''insert''" and "\<not> Function_Multiple f"
    and "RunFunction_step E gen db f data userID (savedData, n) c = (r, c')"
    and "r \<noteq> Panic"
  shows "\<exists>input b. lookup data (Function_Name f) = VObj input
           \<and> BindSingularInput (Function_Values f) input savedData userID = Ok b"
proof -
  from assms obtain input where i: "lookup data (Function_Name f) = VObj input"
    by (cases "lookup data (Function_Name f)") (auto simp: RunFunction_step_def)
  from assms i obtain b where
    "BindSingularInput (Function_Values f) input savedData userID = Ok b"
    by (cases "BindSingularInput (Function_Values f) input savedData userID")
       (auto simp: RunFunction_step_def BindSingularInput_not_Err)
  with i show ?thesis by blast
qed

lemma insert_multiple_inputs:
  assumes "Function_Action f = ''insert''" and "Function_Multiple f"
    and "RunFunction_step E gen db f data userID (savedData, n) c = (r, c')"
    and "r \<noteq> Panic"
  shows "\<exists>inputs binded. lookup data (Function_Name f) = VArr inputs
           \<and> BindMultipleInput (Function_Values f) inputs savedData userID = Ok binded"
proof -
  from assms obtain inputs where i: "lookup data (Function_Name f) = VArr inputs"
    by (cases "lookup data (Function_Name f)") (auto simp: RunFunction_step_def)
  from assms i obtain binded where
    "BindMultipleInput (Function_Values f) inputs savedData userID = Ok binded"
    by (cases "BindMultipleInput (Function_Values f) inputs savedData userID")
       (auto simp: RunFunction_step_def BindMultipleInput_not_Err)
  with i show ?thesis by blast
qed

text \<open>
  C6, amended. Take an insert or update step whose named input has the shape the step
  asserts and whose template values are all strings, and a template value \<open>$name\<close> other
  than \<open>$user.id\<close> whose name is absent from the environment. Binding never returns an
  error and binds the column to nil. The step then runs its storage operation on the bound
  rows: \<open>Create\<close> for an insert (one row for a singular step, one per element of the input
  list for a multiple step), \<open>Updates\<close> for an update, with nil in that column; the one
  exception is the column \<open>id\<close> of an insert, which is overwritten with the generated
  identifier. The step fails only with the error of the storage operation.
\<close>

theorem unresolved_token_binds_nil:
  assumes "(k, VStr (CHR ''$'' # name)) \<in> set (Function_Values f)"
    and "distinct (map fst (Function_Values f))"
    and "name \<noteq> ''user.id''"
    and "map_of savedData name = None"
    and "Function_Action f = ''insert'' \<or> Function_Action f = ''update''"
    and "step_payload_ok f data"
  shows "(\<forall>t input e. BindSingularInput t input savedData userID \<noteq> Err e)
       \<and> (\<forall>input. \<exists>b. BindSingularInput (Function_Values f) input savedData userID = Ok b
                     \<and> map_of b k = Some VNil)
       \<and> (Function_Action f = ''insert'' \<longrightarrow>
            (\<exists>rows st'.
               RunFunction_step E gen Tx f data userID (savedData, n) c =
                 (case e_Create E (Function_Table f) rows (view Tx c) of
                    Inl e \<Rightarrow> (Err e, c)
                  | Inr s' \<Rightarrow>
                      (Ok st', c\<lparr>pending := pending c @ [e_Create E (Function_Table f) rows]\<rparr>))
             \<and> (\<not> Function_Multiple f \<longrightarrow> length rows = 1)
             \<and> (\<forall>inputs. Function_Multiple f \<and> lookup data (Function_Name f) = VArr inputs
                   \<longrightarrow> length rows = length inputs)
             \<and> (k \<noteq> ''id'' \<longrightarrow> (\<forall>row \<in> set rows. map_of row k = Some VNil))))
       \<and> (Function_Action f = ''update'' \<longrightarrow>
            (\<exists>input b.
               lookup data (Function_Name f) = VObj input
             \<and> RunFunction_step E gen Tx f data userID (savedData, n) c =
                 (case e_Updates E (Function_Table f) [(''id = ?'', lookup input ''id'')] b
                         (view Tx c) of
                    Inl e \<Rightarrow> (Err e, c)
                  | Inr s' \<Rightarrow>
                      (Ok (savedData, n),
                       c\<lparr>pending := pending c
                            @ [e_Updates E (Function_Table f)
                                 [(''id = ?'', lookup input ''id'')] b]\<rparr>))
             \<and> map_of b k = Some VNil))"
proof -
  have tok: "template_ok (Function_Values f)"
    using assms(5,6) by (auto simp: step_payload_ok_def)
  have bind: "\<exists>b. BindSingularInput (Function_Values f) input savedData userID = Ok b
                 \<and> map_of b k = Some VNil" for input
  proof -
    obtain b where b: "BindSingularInput (Function_Values f) input savedData userID = Ok b"
      using BindSingularInput_cases [of "Function_Values f" input savedData userID] tok by auto
    from unresolved_binds_nil [OF assms(1-4) b] b show ?thesis by blast
  qed
  have nil: "map_of b k = Some VNil"
    if "BindSingularInput (Function_Values f) input savedData userID = Ok b" for input b
    using unresolved_binds_nil [OF assms(1-4) that] .
  have ins: "\<exists>rows st'.
               RunFunction_step E gen Tx f data userID (savedData, n) c =
                 (case e_Create E (Function_Table f) rows (view Tx c) of
                    Inl e \<Rightarrow> (Err e, c)
                  | Inr s' \<Rightarrow>
                      (Ok st', c\<lparr>pending := pending c @ [e_Create E (Function_Table f) rows]\<rparr>))
             \<and> (\<not> Function_Multiple f \<longrightarrow> length rows = 1)
             \<and> (\<forall>inputs. Function_Multiple f \<and> lookup data (Function_Name f) = VArr inputs
                   \<longrightarrow> length rows = length inputs)
             \<and> (k \<noteq> ''id'' \<longrightarrow> (\<forall>row \<in> set rows. map_of row k = Some VNil))"
    if a: "Function_Action f = ''insert''"
  proof (cases "Function_Multiple f")
    case True
    with a assms(6) obtain xs where
      xs: "lookup data (Function_Name f) = VArr xs" "list_all is_obj xs"
      by (auto simp: step_payload_ok_def is_obj_list_def split: val.splits)
    from BindMultipleInput_loop_not_Panic [OF tok xs(2)]
    obtain rs where rs: "BindMultipleInput (Function_Values f) xs savedData userID = Ok rs"
      unfolding BindMultipleInput_def by blast
    have len: "length rs = length xs"
      using BindMultipleInput_rows(1) [OF rs] .
    have "\<forall>r \<in> set rs. map_of r k = Some VNil"
      using BindMultipleInput_rows(2) [OF rs] nil by blast
    then have keep: "k \<noteq> ''id'' \<longrightarrow> (\<forall>row \<in> set (assign_ids gen n rs). map_of row k = Some VNil)"
      using assign_ids_keeps [of k rs "Some VNil" gen n] by blast
    show ?thesis
      using insert_multiple_step_rows [OF a True xs(1) rs, of E gen n c] True xs(1) len keep
      by (intro exI [of _ "assign_ids gen n rs"] exI [of _ "(savedData, n + length rs)"])
         (simp add: assign_ids_length)
  next
    case False
    with a assms(6) obtain m where m: "lookup data (Function_Name f) = VObj m"
      by (auto simp: step_payload_ok_def shape_ok_def is_obj_def split: val.splits)
    from bind [of m] obtain b where
      b: "BindSingularInput (Function_Values f) m savedData userID = Ok b"
        "map_of b k = Some VNil"
      by blast
    have keep: "k \<noteq> ''id'' \<longrightarrow> (\<forall>row \<in> set (assign_ids gen n [b]). map_of row k = Some VNil)"
      using b(2) by (simp add: update_conv')
    show ?thesis
      using insert_singular_step_rows [OF a False m b(1), of E gen n c] False keep
      by (intro exI [of _ "assign_ids gen n [b]"]
            exI [of _ "(AList.update (Function_Name f) (VStr (gen 16 n)) savedData, Suc n)"])
         simp
  qed
  have upd: "\<exists>input b.
               lookup data (Function_Name f) = VObj input
             \<and> RunFunction_step E gen Tx f data userID (savedData, n) c =
                 (case e_Updates E (Function_Table f) [(''id = ?'', lookup input ''id'')] b
                         (view Tx c) of
                    Inl e \<Rightarrow> (Err e, c)
                  | Inr s' \<Rightarrow>
                      (Ok (savedData, n),
                       c\<lparr>pending := pending c
                            @ [e_Updates E (Function_Table f)
                                 [(''id = ?'', lookup input ''id'')] b]\<rparr>))
             \<and> map_of b k = Some VNil"
    if a: "Function_Action f = ''update''"
  proof -
    from a assms(6) obtain m where m: "lookup data (Function_Name f) = VObj m"
      and nm: "\<not> Function_Multiple f"
      by (auto simp: step_payload_ok_def shape_ok_def is_obj_def split: val.splits)
    from bind [of m] obtain b where
      b: "BindSingularInput (Function_Values f) m savedData userID = Ok b"
        "map_of b k = Some VNil"
      by blast
    show ?thesis
      using update_singular_step [OF a nm m b(1), of E gen n c] m b(2) by blast
  qed
  show ?thesis
    using bind ins upd BindSingularInput_not_Err by blast
qed

text \<open>
  A singular insert into \<open>b\<close> whose template binds \<open>fk\<close> to \<open>$A\<close> while the environment holds
  only \<open>C\<close>: the row is bound and handed to \<open>Create\<close> with a nil \<open>fk\<close>, and the step succeeds.
\<close>

theorem unresolved_token_binds_nil_witness:
  "(\<exists>b. BindSingularInput [(''title'', VStr ''title''), (''fk'', VStr ''$A'')]
           [(''title'', VStr ''hello'')] [(''C'', VStr ''c1'')] ''u1'' = Ok b
        \<and> map_of b ''fk'' = Some VNil)
   \<and> (\<exists>rows st'.
         RunFunction_step (mem_engine (\<lambda>t r s. True)) (\<lambda>n i. ''0123456789abcdef'') Tx
           \<lparr>Function_Name = ''B'', Function_Action = ''insert'', Function_Table = ''b'',
             Function_Multiple = False,
             Function_Values = [(''title'', VStr ''title''), (''fk'', VStr ''$A'')],
             Function_Filter = [], Function_Columns = []\<rparr>
           [(''B'', VObj [(''title'', VStr ''hello'')])] ''u1'' ([(''C'', VStr ''c1'')], 0)
           \<lparr>committed = [], pending = []\<rparr>
         = (Ok st',
            \<lparr>committed = [],
             pending = [e_Create (mem_engine (\<lambda>t r s. True)) ''b'' rows]\<rparr>)
       \<and> length rows = 1
       \<and> map_of (hd rows) ''fk'' = Some VNil)"
proof -
  let ?E = "mem_engine (\<lambda>t r s. True)"
  let ?gen = "\<lambda>(n::nat) (i::nat). ''0123456789abcdef''"
  let ?f = "\<lparr>Function_Name = ''B'', Function_Action = ''insert'', Function_Table = ''b'',
             Function_Multiple = False,
             Function_Values = [(''title'', VStr ''title''), (''fk'', VStr ''$A'')],
             Function_Filter = [], Function_Columns = []\<rparr>"
  let ?data = "[(''B'', VObj [(''title'', VStr ''hello'')])]"
  let ?env = "[(''C'', VStr ''c1'')]"
  let ?c = "\<lparr>committed = ([] :: mem), pending = []\<rparr>"
  have ok: "step_payload_ok ?f ?data"
    by (simp add: step_payload_ok_def shape_ok_def template_ok_def is_str_def is_obj_def
          lookup_def)
  have cr: "e_Create ?E t rows s = Inr (AList.update t (mem_rows s t @ rows) s)" for t rows s
    by (simp add: mem_engine_def list_all_iff)
  from unresolved_token_binds_nil [of "''fk''" "''A''" ?f ?env ?data "''u1''" ?E ?gen 0 ?c] ok
  have a: "\<forall>input. \<exists>b. BindSingularInput (Function_Values ?f) input ?env ''u1'' = Ok b
                     \<and> map_of b ''fk'' = Some VNil"
    and b: "\<exists>rows st'.
               RunFunction_step ?E ?gen Tx ?f ?data ''u1'' (?env, 0) ?c =
                 (case e_Create ?E (Function_Table ?f) rows (view Tx ?c) of
                    Inl e \<Rightarrow> (Err e, ?c)
                  | Inr s' \<Rightarrow>
                      (Ok st', ?c\<lparr>pending := pending ?c @ [e_Create ?E (Function_Table ?f) rows]\<rparr>))
             \<and> (\<not> Function_Multiple ?f \<longrightarrow> length rows = 1)
             \<and> (\<forall>inputs. Function_Multiple ?f \<and> lookup ?data (Function_Name ?f) = VArr inputs
                   \<longrightarrow> length rows = length inputs)
             \<and> (''fk'' \<noteq> ''id'' \<longrightarrow> (\<forall>row \<in> set rows. map_of row ''fk'' = Some VNil))"
    by simp_all
  from a have a': "\<exists>b. BindSingularInput [(''title'', VStr ''title''), (''fk'', VStr ''$A'')]
           [(''title'', VStr ''hello'')] ?env ''u1'' = Ok b \<and> map_of b ''fk'' = Some VNil"
    by simp
  from b obtain rows st' where
    r: "RunFunction_step ?E ?gen Tx ?f ?data ''u1'' (?env, 0) ?c =
          (Ok st', \<lparr>committed = [], pending = [e_Create ?E ''b'' rows]\<rparr>)"
      "length rows = 1" "\<forall>row \<in> set rows. map_of row ''fk'' = Some VNil"
    by (auto simp: cr)
  from r(2,3) have "map_of (hd rows) ''fk'' = Some VNil"
    by (cases rows) auto
  with r(1,2) a' show ?thesis by blast
qed

text \<open>
  C7, as stated, fails: an insert step whose named input is missing from the payload makes
  \<open>RunFunction\<close> panic on the type assertion, and so does a template value that is not a
  string.
\<close>

theorem malformed_payload_counterexample:
  "fst (RunFunction (mem_engine (\<lambda>t r s. True)) (\<lambda>n i. ''0123456789abcdef'')
       [\<lparr>Function_Name = ''A'', Function_Action = ''insert'', Function_Table = ''a'',
         Function_Multiple = False, Function_Values = [(''title'', VStr ''title'')],
         Function_Filter = [], Function_Columns = []\<rparr>]
       [] ''u1'' \<lparr>committed = [], pending = []\<rparr>) = Panic
   \<and> fst (RunFunction (mem_engine (\<lambda>t r s. True)) (\<lambda>n i. ''0123456789abcdef'')
       [\<lparr>Function_Name = ''A'', Function_Action = ''insert'', Function_Table = ''a'',
         Function_Multiple = False, Function_Values = [(''title'', VNum 1)],
         Function_Filter = [], Function_Columns = []\<rparr>]
       [(''A'', VObj [(''title'', VStr ''x'')])] ''u1'' \<lparr>committed = [], pending = []\<rparr>) = Panic"
  by (simp add: RunFunction_def Transaction_def RunFunction_step_def lookup_def
        BindSingularInput_def bind_value_def)

text \<open>
  C7, amended. When every step's named input has the shape the step asserts, the elements
  of a multiple insert's list are objects, every template value of an insert or update
  step is a string and no step is a multiple update, \<open>RunFunction\<close> does not panic: it
  returns the environment or a structured error. When the first step's named input is
  missing or has another shape than the step asserts, \<open>RunFunction\<close> panics, and the
  transaction is rolled back.
\<close>

theorem malformed_payload:
  "(list_all (\<lambda>f. step_payload_ok f data) fs
      \<longrightarrow> fst (RunFunction E gen fs data userID c) \<noteq> Panic)
   \<and> (\<not> shape_ok f data
      \<longrightarrow> RunFunction E gen (f # fs) data userID c = (Panic, c\<lparr>pending := []\<rparr>))"
proof (intro conjI impI)
  assume ok: "list_all (\<lambda>f. step_payload_ok f data) fs"
  obtain r1 c1 where l:
    "RunFunction_loop E gen Tx fs data userID ([], 0) (c\<lparr>pending := []\<rparr>) = (r1, c1)"
    by (cases "RunFunction_loop E gen Tx fs data userID ([], 0) (c\<lparr>pending := []\<rparr>)") auto
  from RunFunction_loop_not_Panic [OF ok, of E gen Tx userID "([], 0)" "c\<lparr>pending := []\<rparr>"] l
  have "r1 \<noteq> Panic" by simp
  with l show "fst (RunFunction E gen fs data userID c) \<noteq> Panic"
    by (cases r1) (simp_all add: RunFunction_def Transaction_def)
next
  assume "\<not> shape_ok f data"
  from RunFunction_step_shape_Panic [OF this, of E gen Tx userID "([], 0)" "c\<lparr>pending := []\<rparr>"]
  show "RunFunction E gen (f # fs) data userID c = (Panic, c\<lparr>pending := []\<rparr>)"
    by (simp add: RunFunction_def Transaction_def)
qed

theorem malformed_payload_witness:
  "fst (RunFunction (mem_engine (\<lambda>t r s. True)) (\<lambda>n i. ''0123456789abcdef'')
       [\<lparr>Function_Name = ''A'', Function_Action = ''insert'', Function_Table = ''a'',
         Function_Multiple = False, Function_Values = [(''title'', VStr ''title'')],
         Function_Filter = [], Function_Columns = []\<rparr>]
       [(''A'', VObj [(''title'', VStr ''x'')])] ''u1'' \<lparr>committed = [], pending = []\<rparr>)
     \<noteq> Panic
   \<and> RunFunction (mem_engine (\<lambda>t r s. True)) (\<lambda>n i. ''0123456789abcdef'')
       [\<lparr>Function_Name = ''A'', Function_Action = ''insert'', Function_Table = ''a'',
         Function_Multiple = True, Function_Values = [(''title'', VStr ''title'')],
         Function_Filter = [], Function_Columns = []\<rparr>]
       [(''A'', VObj [(''title'', VStr ''x'')])] ''u1''
       \<lparr>committed = [(''a'', [])], pending = []\<rparr>
     = (Panic, \<lparr>committed = [(''a'', [])], pending = []\<rparr>)"
proof -
  have 1: "list_all (\<lambda>f. step_payload_ok f [(''A'', VObj [(''title'', VStr ''x'')])])
       [\<lparr>Function_Name = ''A'', Function_Action = ''insert'', Function_Table = ''a'',
         Function_Multiple = False, Function_Values = [(''title'', VStr ''title'')],
         Function_Filter = [], Function_Columns = []\<rparr>]"
    by (simp add: step_payload_ok_def shape_ok_def template_ok_def is_str_def is_obj_def
          lookup_def)
  have 2: "\<not> shape_ok
       \<lparr>Function_Name = ''A'', Function_Action = ''insert'', Function_Table = ''a'',
         Function_Multiple = True, Function_Values = [(''title'', VStr ''title'')],
         Function_Filter = [], Function_Columns = []\<rparr>
       [(''A'', VObj [(''title'', VStr ''x'')])]"
    by (simp add: shape_ok_def lookup_def)
  from malformed_payload
    [of "[(''A'', VObj [(''title'', VStr ''x'')])]"
        "[\<lparr>Function_Name = ''A'', Function_Action = ''insert'', Function_Table = ''a'',
         Function_Multiple = False, Function_Values = [(''title'', VStr ''title'')],
         Function_Filter = [], Function_Columns = []\<rparr>]"
        "mem_engine (\<lambda>t r s. True)" "\<lambda>n i. ''0123456789abcdef''" "''u1''"
        "\<lparr>committed = [], pending = []\<rparr>"] 1
  have a: "fst (RunFunction (mem_engine (\<lambda>t r s. True)) (\<lambda>n i. ''0123456789abcdef'')
       [\<lparr>Function_Name = ''A'', Function_Action = ''insert'', Function_Table = ''a'',
         Function_Multiple = False, Function_Values = [(''title'', VStr ''title'')],
         Function_Filter = [], Function_Columns = []\<rparr>]
       [(''A'', VObj [(''title'', VStr ''x'')])] ''u1'' \<lparr>committed = [], pending = []\<rparr>)
     \<noteq> Panic"
    by blast
  from malformed_payload
    [of "[(''A'', VObj [(''title'', VStr ''x'')])]" "[]"
        "mem_engine (\<lambda>t r s. True)" "\<lambda>n i. ''0123456789abcdef''" "''u1''"
        "\<lparr>committed = [(''a'', [])], pending = []\<rparr>"
        "\<lparr>Function_Name = ''A'', Function_Action = ''insert'', Function_Table = ''a'',
         Function_Multiple = True, Function_Values = [(''title'', VStr ''title'')],
         Function_Filter = [], Function_Columns = []\<rparr>"] 2
  have b: "RunFunction (mem_engine (\<lambda>t r s. True)) (\<lambda>n i. ''0123456789abcdef'')
       [\<lparr>Function_Name = ''A'', Function_Action = ''insert'', Function_Table = ''a'',
         Function_Multiple = True, Function_Values = [(''title'', VStr ''title'')],
         Function_Filter = [], Function_Columns = []\<rparr>]
       [(''A'', VObj [(''title'', VStr ''x'')])] ''u1''
       \<lparr>committed = [(''a'', [])], pending = []\<rparr>
     = (Panic, \<lparr>committed = [(''a'', [])], pending = []\<rparr>)"
    by simp
  from a b show ?thesis by blast
qed

lemma gen_ok_length:
  "GenerateRandomString_ok gen m \<Longrightarrow> i < m \<Longrightarrow> length (gen 16 i) = 16"
  by (simp add: GenerateRandomString_ok_def list_all_iff)

lemma gen_ok_distinct:
  assumes "GenerateRandomString_ok gen m" and "i < m" and "j < i"
  shows "gen 16 j \<noteq> gen 16 i"
proof -
  have d: "distinct (map (gen 16) [0..<m])"
    using assms(1) by (simp add: GenerateRandomString_ok_def)
  have "(map (gen 16) [0..<m] ! j = map (gen 16) [0..<m] ! i) = (j = i)"
    using d assms(2,3) by (intro nth_eq_iff_index_eq) auto
  with assms(2,3) show ?thesis by simp
qed

text \<open>
  C10. Take an insert step that succeeds inside the transaction, a storage engine whose
  \<open>Create\<close> appends the rows it is given to the table, and a generator that keeps its
  contract for the calls made so far. The rows the step adds to the table are the bound
  rows with only \<open>id\<close> replaced: row \<open>i\<close> holds the identifier of the call the step makes
  for it, after binding, whatever \<open>id\<close> the caller input or the template gave it. That
  identifier has 16 characters and differs from every identifier drawn earlier in the
  invocation, so each row has an identifier of its own. It is the output of the generator
  alone: no value of the payload enters it.
\<close>

theorem insert_id_generated:
  assumes "Function_Action f = ''insert''"
    and "RunFunction_step E gen Tx f data userID (savedData, n) c = (Ok (env', n'), c')"
    and "\<And>t rows s s'. e_Create E t rows s = Inr s' \<Longrightarrow> rows_of s' t = rows_of s t @ rows"
    and "GenerateRandomString_ok gen n'"
  shows "\<exists>binded rows.
           (if Function_Multiple f
            then (\<exists>inputs. lookup data (Function_Name f) = VArr inputs
                    \<and> BindMultipleInput (Function_Values f) inputs savedData userID = Ok binded)
            else (\<exists>input b. lookup data (Function_Name f) = VObj input
                    \<and> BindSingularInput (Function_Values f) input savedData userID = Ok b
                    \<and> binded = [b]))
           \<and> rows_of (view Tx c') (Function_Table f)
               = rows_of (view Tx c) (Function_Table f) @ rows
           \<and> length rows = length binded
           \<and> n' = n + length binded
           \<and> (\<forall>i < length binded.
                 rows ! i = AList.update ''id'' (VStr (gen 16 (n + i))) (binded ! i)
               \<and> map_of (rows ! i) ''id'' = Some (VStr (gen 16 (n + i)))
               \<and> length (gen 16 (n + i)) = 16
               \<and> (\<forall>j < n + i. gen 16 j \<noteq> gen 16 (n + i))
               \<and> (\<forall>k. k \<noteq> ''id'' \<longrightarrow> map_of (rows ! i) k = map_of (binded ! i) k))"
proof -
  have np: "Ok (env', n') \<noteq> (Panic :: (gomap \<times> nat) result)" by simp
  have main: "\<exists>rows.
             rows_of (view Tx c') (Function_Table f)
               = rows_of (view Tx c) (Function_Table f) @ rows
           \<and> length rows = length binded
           \<and> n' = n + length binded
           \<and> (\<forall>i < length binded.
                 rows ! i = AList.update ''id'' (VStr (gen 16 (n + i))) (binded ! i)
               \<and> map_of (rows ! i) ''id'' = Some (VStr (gen 16 (n + i)))
               \<and> length (gen 16 (n + i)) = 16
               \<and> (\<forall>j < n + i. gen 16 j \<noteq> gen 16 (n + i))
               \<and> (\<forall>k. k \<noteq> ''id'' \<longrightarrow> map_of (rows ! i) k = map_of (binded ! i) k))"
    if step: "RunFunction_step E gen Tx f data userID (savedData, n) c =
       (case e_Create E (Function_Table f) (assign_ids gen n binded) (view Tx c) of
          Inl e \<Rightarrow> (Err e, c)
        | Inr s' \<Rightarrow>
            (Ok (env0, n + length binded),
             c\<lparr>pending := pending c
                  @ [e_Create E (Function_Table f) (assign_ids gen n binded)]\<rparr>))"
    for binded env0
  proof -
    let ?op = "e_Create E (Function_Table f) (assign_ids gen n binded)"
    from step assms(2) obtain s' where
      s': "?op (view Tx c) = Inr s'"
      and c': "c' = c\<lparr>pending := pending c @ [?op]\<rparr>"
      and n': "n' = n + length binded"
      by (cases "?op (view Tx c)") auto
    have v: "view Tx c' = s'"
      unfolding c' using s' by (rule view_Tx_snoc)
    have stored: "rows_of (view Tx c') (Function_Table f)
        = rows_of (view Tx c) (Function_Table f) @ assign_ids gen n binded"
      unfolding v using s' by (rule assms(3))
    have ids: "\<forall>i < length binded.
                 assign_ids gen n binded ! i
                   = AList.update ''id'' (VStr (gen 16 (n + i))) (binded ! i)
               \<and> map_of (assign_ids gen n binded ! i) ''id'' = Some (VStr (gen 16 (n + i)))
               \<and> length (gen 16 (n + i)) = 16
               \<and> (\<forall>j < n + i. gen 16 j \<noteq> gen 16 (n + i))
               \<and> (\<forall>k. k \<noteq> ''id'' \<longrightarrow>
                     map_of (assign_ids gen n binded ! i) k = map_of (binded ! i) k)"
    proof (intro allI impI)
      fix i
      assume i: "i < length binded"
      then have lt: "n + i < n'" using n' by simp
      have "length (gen 16 (n + i)) = 16"
        using assms(4) lt by (rule gen_ok_length)
      moreover have "\<forall>j < n + i. gen 16 j \<noteq> gen 16 (n + i)"
        using gen_ok_distinct [OF assms(4) lt] by blast
      ultimately show "assign_ids gen n binded ! i
                   = AList.update ''id'' (VStr (gen 16 (n + i))) (binded ! i)
               \<and> map_of (assign_ids gen n binded ! i) ''id'' = Some (VStr (gen 16 (n + i)))
               \<and> length (gen 16 (n + i)) = 16
               \<and> (\<forall>j < n + i. gen 16 j \<noteq> gen 16 (n + i))
               \<and> (\<forall>k. k \<noteq> ''id'' \<longrightarrow>
                     map_of (assign_ids gen n binded ! i) k = map_of (binded ! i) k)"
        using i by (simp add: assign_ids_nth update_conv')
    qed
    show ?thesis
      using stored n' ids
      by (intro exI [of _ "assign_ids gen n binded"])
         (simp add: assign_ids_length update_conv')
  qed
  show ?thesis
  proof (cases "Function_Multiple f")
    case True
    from insert_multiple_inputs [OF assms(1) True assms(2) np] obtain inputs binded where
      i: "lookup data (Function_Name f) = VArr inputs"
        "BindMultipleInput (Function_Values f) inputs savedData userID = Ok binded"
      by blast
    from main [OF insert_multiple_step_rows [OF assms(1) True i]] True i
    show ?thesis by auto
  next
    case False
    from insert_singular_inputs [OF assms(1) False assms(2) np] obtain input b where
      i: "lookup data (Function_Name f) = VObj input"
        "BindSingularInput (Function_Values f) input savedData userID = Ok b"
      by blast
    have "RunFunction_step E gen Tx f data userID (savedData, n) c =
       (case e_Create E (Function_Table f) (assign_ids gen n [b]) (view Tx c) of
          Inl e \<Rightarrow> (Err e, c)
        | Inr s' \<Rightarrow>
            (Ok (AList.update (Function_Name f) (VStr (gen 16 n)) savedData, n + length [b]),
             c\<lparr>pending := pending c
                  @ [e_Create E (Function_Table f) (assign_ids gen n [b])]\<rparr>))"
      using insert_singular_step_rows [OF assms(1) False i, of E gen n c]
      by (simp split: sum.splits)
    from main [OF this] False i
    show ?thesis by auto
  qed
qed

text \<open>
  A multiple insert on the in-memory engine: both elements of the payload supply the id
  \<open>chosen\<close> and the template copies it, yet the two rows are stored under the two
  identifiers drawn from the generator, in the transaction and, once \<open>RunFunction\<close> has
  committed it, in the store.
\<close>

theorem insert_id_generated_witness:
  "GenerateRandomString_ok (\<lambda>n i. if i = 0 then ''0123456789abcdef'' else ''fedcba9876543210'') 2
   \<and> (\<exists>c'. RunFunction_step (mem_engine (\<lambda>t r s. True))
             (\<lambda>n i. if i = 0 then ''0123456789abcdef'' else ''fedcba9876543210'') Tx
             \<lparr>Function_Name = ''A'', Function_Action = ''insert'', Function_Table = ''a'',
               Function_Multiple = True,
               Function_Values = [(''id'', VStr ''id''), (''title'', VStr ''title'')],
               Function_Filter = [], Function_Columns = []\<rparr>
             [(''A'', VArr [VObj [(''id'', VStr ''chosen''), (''title'', VStr ''x'')],
                           VObj [(''id'', VStr ''chosen''), (''title'', VStr ''y'')]])]
             ''u1'' ([], 0) \<lparr>committed = [], pending = []\<rparr>
           = (Ok ([], 2), c')
        \<and> (\<exists>rows. mem_rows (view Tx c') ''a'' = rows
              \<and> rows ! 0 = [(''id'', VStr ''0123456789abcdef''), (''title'', VStr ''x'')]
              \<and> rows ! 1 = [(''id'', VStr ''fedcba9876543210''), (''title'', VStr ''y'')]
              \<and> length rows = 2))
   \<and> RunFunction (mem_engine (\<lambda>t r s. True))
       (\<lambda>n i. if i = 0 then ''0123456789abcdef'' else ''fedcba9876543210'')
       [\<lparr>Function_Name = ''A'', Function_Action = ''insert'', Function_Table = ''a'',
          Function_Multiple = True,
          Function_Values = [(''id'', VStr ''id''), (''title'', VStr ''title'')],
          Function_Filter = [], Function_Columns = []\<rparr>]
       [(''A'', VArr [VObj [(''id'', VStr ''chosen''), (''title'', VStr ''x'')],
                     VObj [(''id'', VStr ''chosen''), (''title'', VStr ''y'')]])]
       ''u1'' \<lparr>committed = [], pending = []\<rparr>
     = (Ok [],
        \<lparr>committed =
           [(''a'', [[(''id'', VStr ''0123456789abcdef''), (''title'', VStr ''x'')],
                    [(''id'', VStr ''fedcba9876543210''), (''title'', VStr ''y'')]])],
         pending = []\<rparr>)"
proof -
  let ?E = "mem_engine (\<lambda>t r s. True)"
  let ?gen = "\<lambda>(n::nat) (i::nat). if i = 0 then ''0123456789abcdef'' else ''fedcba9876543210''"
  let ?f = "\<lparr>Function_Name = ''A'', Function_Action = ''insert'', Function_Table = ''a'',
               Function_Multiple = True,
               Function_Values = [(''id'', VStr ''id''), (''title'', VStr ''title'')],
               Function_Filter = [], Function_Columns = []\<rparr>"
  let ?data = "[(''A'', VArr [VObj [(''id'', VStr ''chosen''), (''title'', VStr ''x'')],
                           VObj [(''id'', VStr ''chosen''), (''title'', VStr ''y'')]])]"
  let ?c = "\<lparr>committed = ([] :: mem), pending = []\<rparr>"
  let ?rows = "[[(''id'', VStr ''0123456789abcdef''), (''title'', VStr ''x'')],
                [(''id'', VStr ''fedcba9876543210''), (''title'', VStr ''y'')]]"
  have g: "GenerateRandomString_ok ?gen 2"
    by (simp add: GenerateRandomString_ok_def upt_rec)
  have bm: "BindMultipleInput (Function_Values ?f)
              [VObj [(''id'', VStr ''chosen''), (''title'', VStr ''x'')],
               VObj [(''id'', VStr ''chosen''), (''title'', VStr ''y'')]] [] ''u1''
            = Ok [[(''id'', VStr ''chosen''), (''title'', VStr ''x'')],
                  [(''id'', VStr ''chosen''), (''title'', VStr ''y'')]]"
    by (simp add: BindMultipleInput_def BindSingularInput_def bind_value_def lookup_def)
  have step: "RunFunction_step ?E ?gen Tx ?f ?data ''u1'' ([], 0) ?c
      = (Ok ([], 2), \<lparr>committed = [], pending = [e_Create ?E ''a'' ?rows]\<rparr>)"
    using insert_multiple_step_rows [of ?f ?data _ "[]" "''u1''" _ ?E ?gen 0 ?c, OF _ _ _ bm]
    by (simp add: lookup_def mem_engine_def view_def replay_def)
  have store: "\<And>t rows s s'. e_Create ?E t rows s = Inr s'
      \<Longrightarrow> mem_rows s' t = mem_rows s t @ rows"
    by (auto simp: mem_engine_def mem_rows_def update_conv' list_all_iff split: if_splits)
  from insert_id_generated [of ?f ?E ?gen ?data "''u1''" "[]" 0 ?c "[]" 2
      "\<lparr>committed = [], pending = [e_Create ?E ''a'' ?rows]\<rparr>" mem_rows, OF _ step store g]
  obtain binded rows where
    b: "BindMultipleInput (Function_Values ?f)
              [VObj [(''id'', VStr ''chosen''), (''title'', VStr ''x'')],
               VObj [(''id'', VStr ''chosen''), (''title'', VStr ''y'')]] [] ''u1'' = Ok binded"
    and r: "mem_rows (view Tx \<lparr>committed = [], pending = [e_Create ?E ''a'' ?rows]\<rparr>) ''a''
              = mem_rows (view Tx ?c) ''a'' @ rows"
      "length rows = length binded"
      "\<forall>i < length binded.
         rows ! i = AList.update ''id'' (VStr (?gen 16 (0 + i))) (binded ! i)"
    by (auto simp: lookup_def)
  from b bm have binded: "binded = [[(''id'', VStr ''chosen''), (''title'', VStr ''x'')],
                  [(''id'', VStr ''chosen''), (''title'', VStr ''y'')]]"
    by simp
  have r0: "rows ! 0 = [(''id'', VStr ''0123456789abcdef''), (''title'', VStr ''x'')]"
    using r(3) binded by simp
  have r1: "rows ! 1 = [(''id'', VStr ''fedcba9876543210''), (''title'', VStr ''y'')]"
    using r(3) binded by simp
  have len: "length rows = 2"
    using r(2) binded by simp
  have v: "mem_rows (view Tx \<lparr>committed = [], pending = [e_Create ?E ''a'' ?rows]\<rparr>) ''a'' = rows"
    using r(1) by (simp add: view_def replay_def mem_rows_def)
  have run: "RunFunction ?E ?gen [?f] ?data ''u1'' ?c
      = (Ok [], \<lparr>committed = [(''a'', ?rows)], pending = []\<rparr>)"
    using step
    by (simp add: RunFunction_def Transaction_def view_def replay_def mem_engine_def
          mem_rows_def)
  from g step v r0 r1 len run show ?thesis
    by blast
qed

lemma replay_single: "opn s = Inr s' \<Longrightarrow> replay [opn] s = s'"
  by (simp add: replay_def)

lemma replay_snoc: "replay (ops @ [opn]) s = replay [opn] (replay ops s)"
  by (simp add: replay_def)

lemma insert_singular_step:
  assumes "Function_Action f = ''insert''" and "\<not> Function_Multiple f"
    and "lookup data (Function_Name f) = VObj input"
    and "BindSingularInput (Function_Values f) input savedData userID = Ok b"
  shows "RunFunction_step E gen Tx f data userID (savedData, n) c =
     (case e_Create E (Function_Table f) [AList.update ''id'' (VStr (gen 16 n)) b]
             (replay (pending c) (committed c)) of
        Inl e \<Rightarrow> (Err e, c)
      | Inr s' \<Rightarrow>
          (Ok (AList.update (Function_Name f) (VStr (gen 16 n)) savedData, Suc n),
           c\<lparr>pending := pending c
                @ [e_Create E (Function_Table f) [AList.update ''id'' (VStr (gen 16 n)) b]]\<rparr>))"
  using assms
  by (simp add: RunFunction_step_def Let_def lift_exec_def exec_def view_def lookup_def
        update_conv' split: sum.splits)

text \<open>
  C4. A pipeline of two singular inserts, the first named \<open>nameA\<close>, the second binding its
  column \<open>fk\<close> to \<open>$nameA\<close>: when the invocation succeeds, the committed state is the result
  of creating a row in the first table and then a row in the second whose \<open>fk\<close> is the
  \<open>id\<close> generated for the first; when it does not succeed (the second insert is rejected,
  or anything else fails), the committed state is the one before the call, so the first
  row is not visible. The caller identity is \<open>u1\<close>.
\<close>

theorem two_step_pipeline:
  assumes fA: "Function_Action fA = ''insert''" "\<not> Function_Multiple fA"
      "Function_Name fA = nameA"
    and fB: "Function_Action fB = ''insert''" "\<not> Function_Multiple fB"
    and bind: "(''fk'', VStr (CHR ''$'' # nameA)) \<in> set (Function_Values fB)"
      "distinct (map fst (Function_Values fB))" "nameA \<noteq> ''user.id''"
    and run: "RunFunction E gen [fA, fB] data ''u1'' c = (r, c')"
  shows "(\<forall>env. r = Ok env \<longrightarrow>
            (\<exists>rowA rowB s1.
                e_Create E (Function_Table fA) [rowA] (committed c) = Inr s1
              \<and> e_Create E (Function_Table fB) [rowB] s1 = Inr (committed c')
              \<and> map_of rowA ''id'' = Some (VStr (gen 16 0))
              \<and> map_of rowB ''fk'' = map_of rowA ''id''))
         \<and> ((\<forall>env. r \<noteq> Ok env) \<longrightarrow> committed c' = committed c)
         \<and> pending c' = []"
proof (intro conjI allI impI)
  show "pending c' = []"
    using run
    by (cases "RunFunction_loop E gen Tx [fA, fB] data ''u1'' ([], 0) (c\<lparr>pending := []\<rparr>)";
        cases "fst (RunFunction_loop E gen Tx [fA, fB] data ''u1'' ([], 0) (c\<lparr>pending := []\<rparr>))")
       (auto simp: RunFunction_def Transaction_def)
next
  assume "\<forall>env. r \<noteq> Ok env"
  with RunFunction_rollback [OF run] show "committed c' = committed c" by simp
next
  fix env
  assume ok: "r = Ok env"
  let ?c0 = "c\<lparr>pending := []\<rparr>"
  obtain r1 c1 where s1: "RunFunction_step E gen Tx fA data ''u1'' ([], 0) ?c0 = (r1, c1)"
    by (cases "RunFunction_step E gen Tx fA data ''u1'' ([], 0) ?c0") auto
  from run ok s1 obtain st1 where r1: "r1 = Ok st1"
    by (cases r1) (auto simp: RunFunction_def Transaction_def)
  have npA: "r1 \<noteq> Panic" using r1 by simp
  from insert_singular_inputs [OF fA(1,2) s1 npA] obtain inputA bA where
    iA: "lookup data (Function_Name fA) = VObj inputA"
      "BindSingularInput (Function_Values fA) inputA [] ''u1'' = Ok bA"
    by auto
  let ?rowA = "AList.update ''id'' (VStr (gen 16 0)) bA"
  let ?opA = "e_Create E (Function_Table fA) [?rowA]"
  from insert_singular_step [OF fA(1,2) iA, of E gen 0 ?c0] s1 r1
  obtain sA where
    cA: "?opA (committed c) = Inr sA"
    and st1: "st1 = (AList.update nameA (VStr (gen 16 0)) [], Suc 0)"
    and c1: "c1 = ?c0\<lparr>pending := [?opA]\<rparr>"
    using fA(3) by (auto simp: replay_def split: sum.splits)
  obtain r2 c2 where s2: "RunFunction_step E gen Tx fB data ''u1'' st1 c1 = (r2, c2)"
    by (cases "RunFunction_step E gen Tx fB data ''u1'' st1 c1") auto
  from run ok s1 r1 s2 obtain st2 where r2: "r2 = Ok st2"
    by (cases r2) (auto simp: RunFunction_def Transaction_def)
  have npB: "r2 \<noteq> Panic" using r2 by simp
  from insert_singular_inputs [OF fB(1,2) s2 [unfolded st1] npB] obtain inputB bB where
    iB: "lookup data (Function_Name fB) = VObj inputB"
      "BindSingularInput (Function_Values fB) inputB [(nameA, VStr (gen 16 0))] ''u1'' = Ok bB"
    by auto
  let ?rowB = "AList.update ''id'' (VStr (gen 16 (Suc 0))) bB"
  let ?opB = "e_Create E (Function_Table fB) [?rowB]"
  have viewA: "replay (pending c1) (committed c1) = sA"
    using c1 cA by (simp add: replay_def)
  from insert_singular_step [OF fB(1,2) iB, of E gen "Suc 0" c1] s2 [unfolded st1] r2 viewA
  obtain sB where
    cB: "?opB sA = Inr sB"
    and st2: "st2 = (AList.update (Function_Name fB) (VStr (gen 16 (Suc 0)))
                       [(nameA, VStr (gen 16 0))], Suc (Suc 0))"
    and c2: "c2 = c1\<lparr>pending := [?opA, ?opB]\<rparr>"
    using c1 by (auto split: sum.splits)
  have fin: "committed c' = sB"
    using run s1 r1 s2 r2 c1 c2 cA cB
    by (auto simp: RunFunction_def Transaction_def view_def replay_def)
  have fk: "map_of bB ''fk'' = Some (VStr (gen 16 0))"
  proof -
    have "map_of bB ''fk'' =
            bind_value ''fk'' (VStr (CHR ''$'' # nameA)) inputB [(nameA, VStr (gen 16 0))] ''u1''"
      using iB(2) bind(2,1) unfolding BindSingularInput_def
      by (rule BindSingularInput_loop_binds)
    also have "\<dots> = Some (VStr (gen 16 0))"
      using bind(3) by (simp add: bind_value_def lookup_def)
    finally show ?thesis .
  qed
  show "\<exists>rowA rowB s1.
          e_Create E (Function_Table fA) [rowA] (committed c) = Inr s1
        \<and> e_Create E (Function_Table fB) [rowB] s1 = Inr (committed c')
        \<and> map_of rowA ''id'' = Some (VStr (gen 16 0))
        \<and> map_of rowB ''fk'' = map_of rowA ''id''"
    using cA cB fin fk
    by (intro exI [of _ ?rowA] exI [of _ ?rowB] exI [of _ sA]) (simp add: update_conv')
qed

text \<open>
  Two runs on the in-memory engine with a uniqueness constraint on \<open>b.fk\<close>: in the empty
  store both rows are created and \<open>b.fk\<close> is the identifier of the row of \<open>a\<close>; when a row
  of \<open>b\<close> already holds that value the second insert is rejected and the store is unchanged.
\<close>

theorem two_step_pipeline_witness:
  "RunFunction (mem_engine (unique_on ''b'' ''fk'')) (\<lambda>n i. if i = 0 then ''id0'' else ''id1'')
     [\<lparr>Function_Name = ''A'', Function_Action = ''insert'', Function_Table = ''a'',
        Function_Multiple = False, Function_Values = [(''title'', VStr ''title'')],
        Function_Filter = [], Function_Columns = []\<rparr>,
      \<lparr>Function_Name = ''B'', Function_Action = ''insert'', Function_Table = ''b'',
        Function_Multiple = False, Function_Values = [(''fk'', VStr ''$A'')],
        Function_Filter = [], Function_Columns = []\<rparr>]
     [(''A'', VObj [(''title'', VStr ''x'')]), (''B'', VObj [])] ''u1''
     \<lparr>committed = [], pending = []\<rparr>
   = (Ok [(''A'', VStr ''id0''), (''B'', VStr ''id1'')],
      \<lparr>committed = [(''a'', [[(''title'', VStr ''x''), (''id'', VStr ''id0'')]]),
                    (''b'', [[(''fk'', VStr ''id0''), (''id'', VStr ''id1'')]])],
       pending = []\<rparr>)
   \<and> (\<exists>rowA rowB s1.
         e_Create (mem_engine (unique_on ''b'' ''fk'')) ''a'' [rowA] [] = Inr s1
       \<and> e_Create (mem_engine (unique_on ''b'' ''fk'')) ''b'' [rowB] s1
           = Inr [(''a'', [[(''title'', VStr ''x''), (''id'', VStr ''id0'')]]),
                  (''b'', [[(''fk'', VStr ''id0''), (''id'', VStr ''id1'')]])]
       \<and> map_of rowA ''id'' = Some (VStr ''id0'')
       \<and> map_of rowB ''fk'' = map_of rowA ''id'')
   \<and> RunFunction (mem_engine (unique_on ''b'' ''fk'')) (\<lambda>n i. if i = 0 then ''id0'' else ''id1'')
     [\<lparr>Function_Name = ''A'', Function_Action = ''insert'', Function_Table = ''a'',
        Function_Multiple = False, Function_Values = [(''title'', VStr ''title'')],
        Function_Filter = [], Function_Columns = []\<rparr>,
      \<lparr>Function_Name = ''B'', Function_Action = ''insert'', Function_Table = ''b'',
        Function_Multiple = False, Function_Values = [(''fk'', VStr ''$A'')],
        Function_Filter = [], Function_Columns = []\<rparr>]
     [(''A'', VObj [(''title'', VStr ''x'')]), (''B'', VObj [])] ''u1''
     \<lparr>committed = [(''b'', [[(''fk'', VStr ''id0'')]])], pending = []\<rparr>
   = (Err ''constraint failed'',
      \<lparr>committed = [(''b'', [[(''fk'', VStr ''id0'')]])], pending = []\<rparr>)"
proof -
  let ?E = "mem_engine (unique_on ''b'' ''fk'')"
  let ?gen = "\<lambda>(n::nat) (i::nat). if i = 0 then ''id0'' else ''id1''"
  let ?fA = "\<lparr>Function_Name = ''A'', Function_Action = ''insert'', Function_Table = ''a'',
        Function_Multiple = False, Function_Values = [(''title'', VStr ''title'')],
        Function_Filter = [], Function_Columns = []\<rparr>"
  let ?fB = "\<lparr>Function_Name = ''B'', Function_Action = ''insert'', Function_Table = ''b'',
        Function_Multiple = False, Function_Values = [(''fk'', VStr ''$A'')],
        Function_Filter = [], Function_Columns = []\<rparr>"
  let ?data = "[(''A'', VObj [(''title'', VStr ''x'')]), (''B'', VObj [])]"
  let ?c = "\<lparr>committed = ([] :: mem), pending = []\<rparr>"
  let ?s = "[(''a'', [[(''title'', VStr ''x''), (''id'', VStr ''id0'')]]),
             (''b'', [[(''fk'', VStr ''id0''), (''id'', VStr ''id1'')]])]"
  have run1: "RunFunction ?E ?gen [?fA, ?fB] ?data ''u1'' ?c
      = (Ok [(''A'', VStr ''id0''), (''B'', VStr ''id1'')], \<lparr>committed = ?s, pending = []\<rparr>)"
    by (simp add: RunFunction_def Transaction_def RunFunction_step_def lookup_def
          BindSingularInput_def bind_value_def lift_exec_def exec_def view_def replay_def
          mem_engine_def mem_rows_def unique_on_def)
  have run2: "RunFunction ?E ?gen [?fA, ?fB] ?data ''u1''
        \<lparr>committed = [(''b'', [[(''fk'', VStr ''id0'')]])], pending = []\<rparr>
      = (Err ''constraint failed'',
         \<lparr>committed = [(''b'', [[(''fk'', VStr ''id0'')]])], pending = []\<rparr>)"
    by (simp add: RunFunction_def Transaction_def RunFunction_step_def lookup_def
          BindSingularInput_def bind_value_def lift_exec_def exec_def view_def replay_def
          mem_engine_def mem_rows_def unique_on_def)
  have "\<exists>rowA rowB s1.
         e_Create ?E (Function_Table ?fA) [rowA] (committed ?c) = Inr s1
       \<and> e_Create ?E (Function_Table ?fB) [rowB] s1
           = Inr (committed \<lparr>committed = ?s, pending = []\<rparr>)
       \<and> map_of rowA ''id'' = Some (VStr (?gen 16 0))
       \<and> map_of rowB ''fk'' = map_of rowA ''id''"
    using two_step_pipeline [of ?fA "''A''" ?fB ?E ?gen ?data ?c
        "Ok [(''A'', VStr ''id0''), (''B'', VStr ''id1'')]" "\<lparr>committed = ?s, pending = []\<rparr>"]
      run1
    by simp
  then have "\<exists>rowA rowB s1.
         e_Create ?E ''a'' [rowA] [] = Inr s1
       \<and> e_Create ?E ''b'' [rowB] s1 = Inr ?s
       \<and> map_of rowA ''id'' = Some (VStr ''id0'')
       \<and> map_of rowB ''fk'' = map_of rowA ''id''"
    by simp
  with run1 run2 show ?thesis by blast
qed

section \<open>The CreateTable handler and its transaction\<close>

lemma exec_Pool:
  "exec Pool opn c =
     (case opn (committed c) of Inl e \<Rightarrow> (Some e, c) | Inr s' \<Rightarrow> (None, c\<lparr>committed := s'\<rparr>))"
  by (simp add: exec_def view_def split: sum.splits)

text \<open>
  C1 on the code. The statements of \<open>CreateTable\<close> run on the pool handle, outside the
  transaction the handler opens: when the CREATE TABLE statement succeeds and the first
  CREATE INDEX statement fails, the handler answers with the error and the committed state
  is the one CREATE TABLE produced. Nothing is rolled back.
\<close>

theorem CreateTable_no_rollback:
  assumes "CreateTable_id params = Some idc"
    and "CreateTable_columns params idc = (cols, foreignKeys, uniques, ix # ixs)"
    and "run_sql
           ([nl, tab, tab] @ ''CREATE TABLE '' @ req_TableName params @ '' (''
              @ [nl, tab, tab, tab]
              @ Join (((cols @ timestampFields) @ uniques) @ foreignKeys) '',''
              @ [nl, tab, tab] @ '')'' @ [nl, tab])
           (committed c) = Inr s1"
    and "run_sql ix s1 = Inl e"
  shows "DatabaseAPI_CreateTable params c = (Some e, \<lparr>committed = s1, pending = []\<rparr>)"
  using assms
  by (simp add: DatabaseAPI_CreateTable_def Transaction_def CreateTable_callback_def
        exec_Pool to_result_def of_result_def)

lemmas sql_eval =
  run_sql_def ltrim_def is_space_def nl_def tab_def word_def rest_def has_key_def
  table_body_def trim_def trigger_text_def count_trigger_def catalog_insert_def
  catalog_delete_def view_def replay_def exec_def Let_def new_Tables_def

lemma CreateTable_t1:
  "DatabaseAPI_CreateTable (indexed_title_req ''t1'') \<lparr>committed = empty_db, pending = []\<rparr>
     = (None, \<lparr>committed = db_after_t1, pending = []\<rparr>)"
  by (simp add: DatabaseAPI_CreateTable_def Transaction_def CreateTable_callback_def
        to_result_def of_result_def CreateTable_id_def CreateTable_columns_def
        convertTypeToSQLiteType_def timestampFields_def empty_db_def db_after_t1_def
        indexed_title_req_def title_columns_def sql_eval)

text \<open>
  The failing input: after a table \<open>t1\<close> with an indexed field \<open>title\<close> was created, the
  request for a table \<open>t2\<close> with an indexed field \<open>title\<close> fails at its CREATE INDEX statement
  (the index name \<open>idx_title\<close> is taken). The handler reports the error, and the live table
  \<open>t2\<close> exists while the catalog has no row for it.
\<close>

theorem CreateTable_no_rollback_witness:
  "DatabaseAPI_CreateTable (indexed_title_req ''t1'') \<lparr>committed = empty_db, pending = []\<rparr>
     = (None, \<lparr>committed = db_after_t1, pending = []\<rparr>)
   \<and> DatabaseAPI_CreateTable (indexed_title_req ''t2'') \<lparr>committed = db_after_t1, pending = []\<rparr>
     = (Some ''index idx_title already exists'',
        \<lparr>committed = db_after_t1\<lparr>db_tables := [(''t1'', title_columns), (''t2'', title_columns)]\<rparr>,
         pending = []\<rparr>)
   \<and> has_key (db_tables (committed (snd
         (DatabaseAPI_CreateTable (indexed_title_req ''t2'')
            \<lparr>committed = db_after_t1, pending = []\<rparr>)))) ''t2''
   \<and> \<not> list_ex (\<lambda>r. Tables_Name r = ''t2'') (db_catalog (committed (snd
         (DatabaseAPI_CreateTable (indexed_title_req ''t2'')
            \<lparr>committed = db_after_t1, pending = []\<rparr>))))"
proof -
  let ?s1 = "db_after_t1\<lparr>db_tables := [(''t1'', title_columns), (''t2'', title_columns)]\<rparr>"
  have 1: "CreateTable_id (indexed_title_req ''t2'')
             = Some ''id TEXT PRIMARY KEY DEFAULT (hex(randomblob(8)))''"
    by (simp add: CreateTable_id_def indexed_title_req_def)
  have 2: "CreateTable_columns (indexed_title_req ''t2'')
             ''id TEXT PRIMARY KEY DEFAULT (hex(randomblob(8)))''
           = ([''id TEXT PRIMARY KEY DEFAULT (hex(randomblob(8)))'', ''title TEXT NOT NULL''],
              [], [], [''CREATE INDEX idx_title ON t2 (title)''])"
    by (simp add: CreateTable_columns_def indexed_title_req_def convertTypeToSQLiteType_def)
  have 3: "run_sql
           ([nl, tab, tab] @ ''CREATE TABLE '' @ req_TableName (indexed_title_req ''t2'') @ '' (''
              @ [nl, tab, tab, tab]
              @ Join ((([''id TEXT PRIMARY KEY DEFAULT (hex(randomblob(8)))'',
                         ''title TEXT NOT NULL''] @ timestampFields) @ []) @ []) '',''
              @ [nl, tab, tab] @ '')'' @ [nl, tab])
           (committed \<lparr>committed = db_after_t1, pending = []\<rparr>) = Inr ?s1"
    by (simp add: indexed_title_req_def timestampFields_def db_after_t1_def title_columns_def
          sql_eval)
  have 4: "run_sql ''CREATE INDEX idx_title ON t2 (title)'' ?s1
             = Inl ''index idx_title already exists''"
    by (simp add: db_after_t1_def sql_eval)
  have run2: "DatabaseAPI_CreateTable (indexed_title_req ''t2'')
        \<lparr>committed = db_after_t1, pending = []\<rparr>
      = (Some ''index idx_title already exists'', \<lparr>committed = ?s1, pending = []\<rparr>)"
    by (rule CreateTable_no_rollback [OF 1 2 3 4])
  have 5: "has_key (db_tables ?s1) ''t2''"
    by (simp add: has_key_def)
  have 6: "\<not> list_ex (\<lambda>r. Tables_Name r = ''t2'') (db_catalog ?s1)"
    by (simp add: db_after_t1_def new_Tables_def)
  from CreateTable_t1 run2 5 6 show ?thesis by simp
qed

lemma exec_all_Tx_committed:
  "exec_all Tx ops c = (r, c') \<Longrightarrow> committed c' = committed c"
proof (induction ops arbitrary: c)
  case Nil
  then show ?case by simp
next
  case (Cons opn ops)
  obtain r1 c1 where e: "exec Tx opn c = (r1, c1)" by (cases "exec Tx opn c") auto
  from exec_Tx_committed [OF e] have c1: "committed c1 = committed c" .
  show ?case
  proof (cases r1)
    case None
    with Cons.prems e have "exec_all Tx ops c1 = (r, c')" by simp
    from Cons.IH [OF this] c1 show ?thesis by simp
  next
    case (Some a)
    with Cons.prems e c1 show ?thesis by auto
  qed
qed

text \<open>
  The same callback run on the transaction handle it is given: whatever statement fails,
  the committed state is the one before the call.
\<close>

lemma CreateTable_callback_on_tx:
  assumes "Transaction (\<lambda>tx c'. to_result (CreateTable_callback tx params query indexes a c')) c
             = (r, c')"
    and "r \<noteq> Ok ()"
  shows "committed c' = committed c"
proof -
  let ?c0 = "c\<lparr>pending := []\<rparr>"
  obtain r1 c1 where cb: "CreateTable_callback Tx params query indexes a ?c0 = (r1, c1)"
    by (cases "CreateTable_callback Tx params query indexes a ?c0") auto
  have "committed c1 = committed ?c0"
    using cb unfolding CreateTable_callback_def
    by (auto split: prod.splits option.splits if_splits simp: Let_def
          dest!: exec_Tx_committed exec_all_Tx_committed)
  with assms cb show ?thesis
    by (cases r1) (auto simp: Transaction_def to_result_def)
qed

section \<open>The table service and its cache\<close>

lemma run_sql_catalog:
  "run_sql q db = Inr db' \<Longrightarrow> db_catalog db' = db_catalog db"
  unfolding run_sql_def Let_def
  by (auto split: option.splits if_splits)

lemma in_transaction_cache:
  "svc_cache (snd (in_transaction f s)) = svc_cache s"
  by (simp add: in_transaction_def split: prod.splits)

lemma Info_cached:
  "map_of (svc_cache s) (Info_cacheKey name flds) = Some (CTables t)
     \<Longrightarrow> Info name flds s = (Ok t, s)"
  by (simp add: Info_def Info_cacheKey_def Let_def)

lemma Drop_committed:
  assumes "in_transaction (\<lambda>tx. Drop tx name) s = (None, s')"
  shows "find (\<lambda>r. Tables_Name r = name) (db_catalog (committed (svc_db s'))) = None"
proof -
  let ?c0 = "(svc_db s)\<lparr>pending := []\<rparr>"
  let ?del = "catalog_delete (\<lambda>r. Tables_Name r = name)"
  let ?drop = "run_sql (''DROP TABLE '' @ name)"
  let ?d1 = "(committed (svc_db s))\<lparr>db_catalog :=
      filter (\<lambda>r. Tables_Name r \<noteq> name) (db_catalog (committed (svc_db s)))\<rparr>"
  have del: "?del (committed (svc_db s)) = Inr ?d1"
    by (simp add: catalog_delete_def)
  have e1: "exec Tx ?del ?c0 = (None, ?c0\<lparr>pending := [?del]\<rparr>)"
    by (simp add: exec_def view_def replay_def catalog_delete_def)
  have v1: "view Tx (?c0\<lparr>pending := [?del]\<rparr>) = ?d1"
    by (simp add: view_def replay_def catalog_delete_def)
  obtain r2 c2 where e2: "exec Tx ?drop (?c0\<lparr>pending := [?del]\<rparr>) = (r2, c2)"
    by (cases "exec Tx ?drop (?c0\<lparr>pending := [?del]\<rparr>)") auto
  have d: "Drop Tx name ?c0 = (r2, c2)"
    using e1 e2 by (simp add: Drop_def split: option.splits)
  from assms d have r2: "r2 = None"
    by (cases r2) (auto simp: in_transaction_def Transaction_def to_result_def of_result_def)
  from e2 r2 v1 obtain d2 where d2: "?drop ?d1 = Inr d2"
    and c2: "c2 = ?c0\<lparr>pending := [?del, ?drop]\<rparr>"
    by (auto simp: exec_def split: sum.splits)
  have "committed (svc_db s') = d2"
    using assms d r2 c2 d2
    by (auto simp: in_transaction_def Transaction_def to_result_def of_result_def
          view_def replay_def catalog_delete_def)
  moreover have "db_catalog d2 = db_catalog ?d1"
    using d2 by (rule run_sql_catalog)
  ultimately show ?thesis
    by (simp add: find_None_iff)
qed

lemma Info_missing:
  assumes "find (\<lambda>r. Tables_Name r = name) (db_catalog (committed (svc_db s))) = None"
    and "map_of (svc_cache s) (Info_cacheKey name flds) = None"
  shows "\<exists>e. Info name flds s = (Err e, s)"
  using assms
  by (auto simp: Info_def Info_cacheKey_def Let_def catalog_select_def view_def
        split: option.splits)

lemma Create_ok:
  assumes "CreateTable_Indexes p = []"
    and "run_sql (Create_query lower p) sa = Inr sb"
    and "count_trigger (''updated_timestamp_'' @ CreateTable_Name p) sb = 0"
    and "run_sql (trigger_text (CreateTable_Name p)) sb = Inr sc"
    and "catalog_insert
           (new_Tables (CreateTable_Name p) (CreateTable_Type p = ''users'') (Some [])) sc
         = Inr sd"
  shows "in_transaction (\<lambda>tx. Create lower tx p)
           \<lparr>svc_db = \<lparr>committed = sa, pending = []\<rparr>, svc_cache = ch\<rparr>
         = (None, \<lparr>svc_db = \<lparr>committed = sd, pending = []\<rparr>, svc_cache = ch\<rparr>)"
  using assms
  by (simp add: in_transaction_def Transaction_def to_result_def of_result_def Create_def
        exec_def view_def replay_def)

lemma Drop_ok:
  assumes "run_sql (''DROP TABLE '' @ name)
             (s0\<lparr>db_catalog := filter (\<lambda>r. Tables_Name r \<noteq> name) (db_catalog s0)\<rparr>)
           = Inr s1"
  shows "in_transaction (\<lambda>tx. Drop tx name)
           \<lparr>svc_db = \<lparr>committed = s0, pending = []\<rparr>, svc_cache = ch\<rparr>
         = (None, \<lparr>svc_db = \<lparr>committed = s1, pending = []\<rparr>, svc_cache = ch\<rparr>)"
  using assms
  by (simp add: in_transaction_def Transaction_def to_result_def of_result_def Drop_def
        exec_def view_def replay_def catalog_delete_def)

lemma plain_req_simps:
  "CreateTable_Name (plain_req n k) = n" "CreateTable_Indexes (plain_req n k) = []"
  "CreateTable_Type (plain_req n k) = k" "CreateTable_Fields (plain_req n k) = []"
  by (simp_all add: plain_req_def)

lemma Create_query_u:
  "run_sql (Create_query lower (plain_req ''u'' ''plain'')) empty_db
     = Inr (empty_db\<lparr>db_tables := [(''u'', [''id INTEGER PRIMARY KEY''] @ timestampFields)]\<rparr>)"
  "run_sql (Create_query lower (plain_req ''u'' ''users'')) empty_db
     = Inr (empty_db\<lparr>db_tables :=
              [(''u'', [''id INTEGER PRIMARY KEY''] @ authFields @ timestampFields)]\<rparr>)"
  by (simp_all add: Create_query_def Create_fields_def Create_columns_def timestampFields_def
        authFields_def plain_req_def empty_db_def sql_eval)

lemma trigger_u:
  "run_sql (trigger_text ''u'') (empty_db\<lparr>db_tables := [(''u'', cols)]\<rparr>)
     = Inr (empty_db\<lparr>db_tables := [(''u'', cols)],
                     db_triggers := [(''updated_timestamp_u'', ''u'')]\<rparr>)"
  by (simp add: empty_db_def sql_eval)

lemma Create_u:
  "in_transaction (\<lambda>tx. Create lower tx (plain_req ''u'' ''plain''))
      \<lparr>svc_db = \<lparr>committed = empty_db, pending = []\<rparr>, svc_cache = ch\<rparr>
     = (None, \<lparr>svc_db = \<lparr>committed = u_db False, pending = []\<rparr>, svc_cache = ch\<rparr>)"
  "in_transaction (\<lambda>tx. Create lower tx (plain_req ''u'' ''users''))
      \<lparr>svc_db = \<lparr>committed = empty_db, pending = []\<rparr>, svc_cache = ch\<rparr>
     = (None, \<lparr>svc_db = \<lparr>committed = u_db True, pending = []\<rparr>, svc_cache = ch\<rparr>)"
proof -
  show "in_transaction (\<lambda>tx. Create lower tx (plain_req ''u'' ''plain''))
      \<lparr>svc_db = \<lparr>committed = empty_db, pending = []\<rparr>, svc_cache = ch\<rparr>
     = (None, \<lparr>svc_db = \<lparr>committed = u_db False, pending = []\<rparr>, svc_cache = ch\<rparr>)"
    apply (rule Create_ok [where sb = "empty_db\<lparr>db_tables :=
              [(''u'', [''id INTEGER PRIMARY KEY''] @ timestampFields)]\<rparr>"
          and sc = "empty_db\<lparr>db_tables := [(''u'', [''id INTEGER PRIMARY KEY''] @ timestampFields)],
                     db_triggers := [(''updated_timestamp_u'', ''u'')]\<rparr>"])
        apply (simp_all add: plain_req_simps Create_query_u trigger_u)
     apply (simp_all add: count_trigger_def empty_db_def catalog_insert_def u_db_def)
    done
  show "in_transaction (\<lambda>tx. Create lower tx (plain_req ''u'' ''users''))
      \<lparr>svc_db = \<lparr>committed = empty_db, pending = []\<rparr>, svc_cache = ch\<rparr>
     = (None, \<lparr>svc_db = \<lparr>committed = u_db True, pending = []\<rparr>, svc_cache = ch\<rparr>)"
    apply (rule Create_ok [where sb = "empty_db\<lparr>db_tables :=
              [(''u'', [''id INTEGER PRIMARY KEY''] @ authFields @ timestampFields)]\<rparr>"
          and sc = "empty_db\<lparr>db_tables :=
                      [(''u'', [''id INTEGER PRIMARY KEY''] @ authFields @ timestampFields)],
                     db_triggers := [(''updated_timestamp_u'', ''u'')]\<rparr>"])
        apply (simp_all add: plain_req_simps Create_query_u trigger_u)
     apply (simp_all add: count_trigger_def empty_db_def catalog_insert_def u_db_def)
    done
qed

lemma svc1_eq: "svc1 = \<lparr>svc_db = \<lparr>committed = u_db False, pending = []\<rparr>, svc_cache = []\<rparr>"
  by (simp add: svc1_def svc0_def Create_u)

lemma Info_u:
  "Info ''u'' [] \<lparr>svc_db = \<lparr>committed = u_db False, pending = []\<rparr>, svc_cache = []\<rparr>
     = (Ok (new_Tables ''u'' False (Some [])),
        \<lparr>svc_db = \<lparr>committed = u_db False, pending = []\<rparr>, svc_cache = u_cache\<rparr>)"
  by (simp add: Info_def Info_cacheKey_def default_info_def catalog_select_def
        select_fields_def view_def u_db_def u_cache_def new_Tables_def Let_def)

lemma svc2_eq: "svc2 = \<lparr>svc_db = \<lparr>committed = u_db False, pending = []\<rparr>, svc_cache = u_cache\<rparr>"
  by (simp add: svc2_def svc1_eq Info_u)

lemma Drop_u:
  "in_transaction (\<lambda>tx. Drop tx ''u'') svc2
     = (None, \<lparr>svc_db = \<lparr>committed = empty_db, pending = []\<rparr>, svc_cache = u_cache\<rparr>)"
  unfolding svc2_eq
  by (rule Drop_ok) (simp add: u_db_def empty_db_def sql_eval)

lemma svc3_eq: "svc3 = \<lparr>svc_db = \<lparr>committed = empty_db, pending = []\<rparr>, svc_cache = u_cache\<rparr>"
  by (simp add: svc3_def Drop_u)

text \<open>
  C2, as stated, fails: a plain table \<open>u\<close> is created and described, then dropped; the drop
  succeeds and leaves no catalog row, and the next \<open>Info\<close> call still answers with the
  descriptor cached before the drop.
\<close>

theorem stale_descriptor_counterexample:
  "fst (in_transaction (\<lambda>tx. Drop tx ''u'') svc2) = None
   \<and> db_catalog (committed (svc_db svc3)) = []
   \<and> db_tables (committed (svc_db svc3)) = []
   \<and> fst (Info ''u'' [] svc3) = Ok (new_Tables ''u'' False (Some []))"
  by (simp add: Drop_u svc3_eq empty_db_def Info_cached u_cache_def)

text \<open>
  C2, amended. No mutation run through the service touches the descriptor cache. \<open>Info\<close>
  returns the descriptor cached under its key whenever there is one, whatever the catalog
  holds. After a successful \<open>Drop\<close> of a name, \<open>Info\<close> for that name fails exactly when no
  descriptor is cached under the key it reads.
\<close>

theorem descriptor_cache:
  "svc_cache (snd (in_transaction f s)) = svc_cache s
   \<and> (map_of (svc_cache s) (Info_cacheKey name flds) = Some (CTables t)
        \<longrightarrow> Info name flds s = (Ok t, s))
   \<and> (in_transaction (\<lambda>tx. Drop tx name) s = (None, s')
        \<and> map_of (svc_cache s) (Info_cacheKey name flds) = None
        \<longrightarrow> (\<exists>e. Info name flds s' = (Err e, s')))"
proof (intro conjI impI)
  show "svc_cache (snd (in_transaction f s)) = svc_cache s"
    by (rule in_transaction_cache)
next
  assume "map_of (svc_cache s) (Info_cacheKey name flds) = Some (CTables t)"
  then show "Info name flds s = (Ok t, s)" by (rule Info_cached)
next
  assume a: "in_transaction (\<lambda>tx. Drop tx name) s = (None, s')
        \<and> map_of (svc_cache s) (Info_cacheKey name flds) = None"
  then have d: "in_transaction (\<lambda>tx. Drop tx name) s = (None, s')" by simp
  have "svc_cache s' = svc_cache s"
    using in_transaction_cache [of "\<lambda>tx. Drop tx name" s] d by simp
  with a have miss: "map_of (svc_cache s') (Info_cacheKey name flds) = None" by simp
  from Info_missing [OF Drop_committed [OF d] miss]
  show "\<exists>e. Info name flds s' = (Err e, s')" .
qed

theorem descriptor_cache_witness:
  "svc_cache (snd (in_transaction (\<lambda>tx. Drop tx ''u'') svc2)) = u_cache
   \<and> Info ''u'' [] svc3 = (Ok (new_Tables ''u'' False (Some [])), svc3)
   \<and> (\<exists>e. Info ''u'' [''name''] svc3 = (Err e, svc3))"
proof -
  have k1: "map_of (svc_cache svc3) (Info_cacheKey ''u'' [])
              = Some (CTables (new_Tables ''u'' False (Some [])))"
    by (simp add: svc3_eq u_cache_def)
  have k2: "map_of (svc_cache svc2) (Info_cacheKey ''u'' [''name'']) = None"
    by (simp add: svc2_eq u_cache_def Info_cacheKey_def default_info_def)
  have d: "in_transaction (\<lambda>tx. Drop tx ''u'') svc2 = (None, svc3)"
    by (simp add: Drop_u svc3_eq)
  from descriptor_cache [of "\<lambda>tx. Drop tx ''u''" svc2 "''u''" "[''name'']" zero_Tables svc3] d k2
  have a: "svc_cache (snd (in_transaction (\<lambda>tx. Drop tx ''u'') svc2)) = svc_cache svc2"
    and c: "\<exists>e. Info ''u'' [''name''] svc3 = (Err e, svc3)"
    by blast+
  from descriptor_cache [of "\<lambda>tx. Drop tx ''u''" svc3 "''u''" "[]"
      "new_Tables ''u'' False (Some [])" svc3] k1
  have b: "Info ''u'' [] svc3 = (Ok (new_Tables ''u'' False (Some [])), svc3)"
    by blast
  from a b c show ?thesis by (simp add: svc2_eq)
qed

section \<open>Column listing and the cached descriptor\<close>















end
